theory Spec2Isabelle
  imports Complex_Main "HOL-Library.AList"
begin

section \<open>Raster images\<close>

text \<open>
  A raster is a list of rows. A numpy array of an opened image is either two-dimensional
  (one sample per position: modes L and P) or three-dimensional (a list of channel samples
  per position: RGB, RGBA). Samples are 8-bit values, kept as naturals. A PIL image is
  modelled by the array \<open>np.array(image)\<close> yields, so that converting between the two
  is the identity.
\<close>

type_synonym 'a grid = "'a list list"

definition rows :: "'a grid \<Rightarrow> nat" where
  "rows m = length m"

definition cols :: "'a grid \<Rightarrow> nat" where
  "cols m = (case m of [] \<Rightarrow> 0 | r # _ \<Rightarrow> length r)"

definition rect :: "nat \<Rightarrow> nat \<Rightarrow> 'a grid \<Rightarrow> bool" where
  "rect h w m \<longleftrightarrow> length m = h \<and> list_all (\<lambda>r. length r = w) m"

datatype ndarray = Arr2 "nat grid" | Arr3 "nat list grid"

fun ndim :: "ndarray \<Rightarrow> nat" where
  "ndim (Arr2 m) = 2"
| "ndim (Arr3 m) = 3"

fun shape0 :: "ndarray \<Rightarrow> nat" where
  "shape0 (Arr2 m) = rows m"
| "shape0 (Arr3 m) = rows m"

fun shape1 :: "ndarray \<Rightarrow> nat" where
  "shape1 (Arr2 m) = cols m"
| "shape1 (Arr3 m) = cols m"

definition channels :: "nat list grid \<Rightarrow> nat" where
  "channels m = (case m of [] \<Rightarrow> 0 | r # _ \<Rightarrow> (case r of [] \<Rightarrow> 0 | p # _ \<Rightarrow> length p))"

text \<open>\<open>shape[-1]\<close>: the width of a 2-D array, the channel count of a 3-D one.\<close>

fun shape_last :: "ndarray \<Rightarrow> nat" where
  "shape_last (Arr2 m) = cols m"
| "shape_last (Arr3 m) = channels m"

fun map_grid :: "(nat grid \<Rightarrow> nat grid) \<Rightarrow> (nat list grid \<Rightarrow> nat list grid) \<Rightarrow> ndarray \<Rightarrow> ndarray" where
  "map_grid f g (Arr2 m) = Arr2 (f m)"
| "map_grid f g (Arr3 m) = Arr3 (g m)"

text \<open>An image as a decoder delivers it: at least one row and one column, all rows of one
  width, all pixels of one channel count.\<close>

fun wf_image :: "ndarray \<Rightarrow> bool" where
  "wf_image (Arr2 m) = (0 < rows m \<and> 0 < cols m \<and> rect (rows m) (cols m) m)"
| "wf_image (Arr3 m) = (0 < rows m \<and> 0 < cols m \<and> rect (rows m) (cols m) m \<and> 0 < channels m
     \<and> list_all (list_all (\<lambda>p. length p = channels m)) m)"

datatype exn = DecodeError | CvError | KeyError | IndexError | ValueError | SaveError | NotModelled

section \<open>OpenCV primitives\<close>

text \<open>\<open>cv2.transpose\<close>: \<open>dst(i, j) = src(j, i)\<close>.\<close>

definition cv_transpose :: "'a grid \<Rightarrow> 'a grid" where
  "cv_transpose m = map (\<lambda>i. map (\<lambda>j. m ! j ! i) [0..<rows m]) [0..<cols m]"

text \<open>\<open>cv2.flip\<close>: code 0 flips around the x-axis (row order reversed), a positive code
  around the y-axis (each row reversed), a negative code both.\<close>

definition cv_flip :: "int \<Rightarrow> 'a grid \<Rightarrow> 'a grid" where
  "cv_flip flipCode m =
     (if flipCode = 0 then rev m else if 0 < flipCode then map rev m else rev (map rev m))"

datatype rotate_code = ROTATE_90_CLOCKWISE | ROTATE_180 | ROTATE_90_COUNTERCLOCKWISE

text \<open>\<open>cv2.rotate\<close> is a transpose followed by a flip (a flip alone for 180 degrees).\<close>

fun cv_rotate_grid :: "rotate_code \<Rightarrow> 'a grid \<Rightarrow> 'a grid" where
  "cv_rotate_grid ROTATE_90_CLOCKWISE m = cv_flip 1 (cv_transpose m)"
| "cv_rotate_grid ROTATE_180 m = cv_flip (- 1) m"
| "cv_rotate_grid ROTATE_90_COUNTERCLOCKWISE m = cv_flip 0 (cv_transpose m)"

definition cv_rotate :: "rotate_code \<Rightarrow> ndarray \<Rightarrow> ndarray" where
  "cv_rotate c a = map_grid (cv_rotate_grid c) (cv_rotate_grid c) a"

datatype color_code = COLOR_RGBA2RGB | COLOR_RGB2BGR

text \<open>\<open>cv2.cvtColor\<close> for the two codes used: the source must have 3 or 4 channels, the
  result has 3; \<open>COLOR_RGB2BGR\<close> swaps the first and third channel.\<close>

fun cvt_pixel :: "color_code \<Rightarrow> nat list \<Rightarrow> nat list" where
  "cvt_pixel COLOR_RGBA2RGB p = take 3 p"
| "cvt_pixel COLOR_RGB2BGR p = [p ! 2, p ! 1, p ! 0]"

fun cvtColor :: "color_code \<Rightarrow> ndarray \<Rightarrow> exn + ndarray" where
  "cvtColor c (Arr2 m) = Inl CvError"
| "cvtColor c (Arr3 m) =
     (if channels m = 3 \<or> channels m = 4 then Inr (Arr3 (map (map (cvt_pixel c)) m))
      else Inl CvError)"

section \<open>PIL primitives\<close>

datatype pil_transpose_method = PIL_ROTATE_90 | PIL_ROTATE_180 | PIL_ROTATE_270

text \<open>
  \<open>Image.transpose\<close>, by the index assignments of Pillow's rotation loops, for an input of
  \<open>ysize\<close> rows and \<open>xsize\<close> columns:
  \<open>ROTATE_90\<close> sets \<open>out[xsize - 1 - x][y] = in[y][x]\<close>,
  \<open>ROTATE_180\<close> sets \<open>out[ysize - 1 - y][xsize - 1 - x] = in[y][x]\<close>,
  \<open>ROTATE_270\<close> sets \<open>out[x][ysize - 1 - y] = in[y][x]\<close>.
\<close>

fun pil_transpose_grid :: "pil_transpose_method \<Rightarrow> 'a grid \<Rightarrow> 'a grid" where
  "pil_transpose_grid PIL_ROTATE_90 m =
     map (\<lambda>r. map (\<lambda>c. m ! c ! (cols m - 1 - r)) [0..<rows m]) [0..<cols m]"
| "pil_transpose_grid PIL_ROTATE_180 m =
     map (\<lambda>r. map (\<lambda>c. m ! (rows m - 1 - r) ! (cols m - 1 - c)) [0..<cols m]) [0..<rows m]"
| "pil_transpose_grid PIL_ROTATE_270 m =
     map (\<lambda>r. map (\<lambda>c. m ! (rows m - 1 - c) ! r) [0..<rows m]) [0..<cols m]"

definition pil_transpose :: "pil_transpose_method \<Rightarrow> ndarray \<Rightarrow> ndarray" where
  "pil_transpose t a = map_grid (pil_transpose_grid t) (pil_transpose_grid t) a"

text \<open>
  \<open>Image.rotate(angle, expand)\<close>, counterclockwise. Multiples of 90 degrees take the
  exact transpose paths; any other angle (and a quarter turn of a non-square image without
  \<open>expand\<close>) goes through the resampling transform, which is not modelled.
\<close>

definition pil_rotate :: "int \<Rightarrow> bool \<Rightarrow> ndarray \<Rightarrow> ndarray option" where
  "pil_rotate angle expand im =
     (let a = angle mod 360 in
      if a = 0 then Some im
      else if a = 180 then Some (pil_transpose PIL_ROTATE_180 im)
      else if (a = 90 \<or> a = 270) \<and> (expand \<or> shape1 im = shape0 im)
        then Some (pil_transpose (if a = 90 then PIL_ROTATE_90 else PIL_ROTATE_270) im)
      else None)"

text \<open>\<open>Image.crop((left, upper, right, lower))\<close> for a box inside the image.\<close>

definition pil_crop_grid :: "int \<times> int \<times> int \<times> int \<Rightarrow> 'a grid \<Rightarrow> 'a grid" where
  "pil_crop_grid box m =
     (case box of (left, upper, right, lower) \<Rightarrow>
        map (\<lambda>row. take (nat (right - left)) (drop (nat left) row))
            (take (nat (lower - upper)) (drop (nat upper) m)))"

definition pil_crop :: "int \<times> int \<times> int \<times> int \<Rightarrow> ndarray \<Rightarrow> ndarray" where
  "pil_crop box a = map_grid (pil_crop_grid box) (pil_crop_grid box) a"

section \<open>image_rotation_corrector.py\<close>

text \<open>
  Similarity scores are binary64 values. A finite double is read as the real number it denotes:
  comparing doubles is comparing these reals, and that is exact. The literal \<open>0.015\<close> denotes
  the double nearest to 15/1000, which is slightly smaller.
\<close>

definition SIMILARITY_THRESHOLD :: real where
  "SIMILARITY_THRESHOLD = 1080863910568919 / 2 ^ 56"

text \<open>
  A file on disk is \<open>None\<close> when \<open>Image.open\<close> cannot decode it and \<open>Some\<close> of its
  pixel array otherwise.
\<close>

type_synonym image_file = "ndarray option"

definition imread_chinese :: "image_file \<Rightarrow> exn + ndarray" where
  "imread_chinese f =
     (case f of
        None \<Rightarrow> Inl DecodeError
      | Some img_rgb \<Rightarrow>
          (case (if shape_last img_rgb = 4 then cvtColor COLOR_RGBA2RGB img_rgb else Inr img_rgb) of
             Inl e \<Rightarrow> Inl e
           | Inr img_rgb' \<Rightarrow>
               if ndim img_rgb' = 3 then cvtColor COLOR_RGB2BGR img_rgb' else Inr img_rgb'))"

text \<open>The rotation tried for one angle of the loop in \<open>find_correct_rotation\<close>.\<close>

definition rotate_candidate :: "int \<Rightarrow> ndarray \<Rightarrow> ndarray" where
  "rotate_candidate angle test_img =
     (if angle = 0 then test_img
      else if angle = 90 then cv_rotate ROTATE_90_CLOCKWISE test_img
      else if angle = 180 then cv_rotate ROTATE_180 test_img
      else cv_rotate ROTATE_90_COUNTERCLOCKWISE test_img)"

definition rotation_candidates :: "ndarray \<Rightarrow> (int \<times> ndarray) list" where
  "rotation_candidates test_img = map (\<lambda>angle. (angle, rotate_candidate angle test_img)) [0, 90, 180, 270]"

text \<open>
  The scoring loop. \<open>calculate_similarity\<close> consists of library calls on floating-point
  data only (resize, grey conversion, SSIM); it is the parameter \<open>sim\<close>, whose values are
  the doubles it returns. The state is \<open>(best_angle, best_similarity, similarity_scores)\<close>; the dictionary keeps
  insertion order.
\<close>

fun score_angles ::
  "(ndarray \<Rightarrow> ndarray \<Rightarrow> real) \<Rightarrow> ndarray \<Rightarrow> (int \<times> ndarray) list
     \<Rightarrow> int \<times> real \<times> (int \<times> real) list \<Rightarrow> int \<times> real \<times> (int \<times> real) list" where
  "score_angles sim reference_img [] st = st"
| "score_angles sim reference_img ((angle, rotated) # rest) (best_angle, best_similarity, scores) =
     (let similarity = sim reference_img rotated;
          scores' = AList.update angle similarity scores
      in if similarity > best_similarity
         then score_angles sim reference_img rest (angle, similarity, scores')
         else score_angles sim reference_img rest (best_angle, best_similarity, scores'))"

definition sorted_desc :: "real list \<Rightarrow> real list" where
  "sorted_desc xs = rev (sort xs)"

definition second_best_similarity :: "(int \<times> real) list \<Rightarrow> real" where
  "second_best_similarity scores =
     (let sorted_similarities = sorted_desc (map snd scores)
      in if length sorted_similarities > 1 then sorted_similarities ! 1 else 0)"

record decision =
  best_angle :: int
  best_similarity :: real
  similarity_scores :: "(int \<times> real) list"
  needs_manual_check :: bool

text \<open>
  \<open>best_similarity - second_best_similarity\<close> is a floating-point subtraction: its result is
  the exact difference rounded to a double. The rounded subtraction is the parameter \<open>fsub\<close>,
  so that what is proved holds for the subtraction of the machine.
\<close>

definition find_correct_rotation ::
  "(ndarray \<Rightarrow> ndarray \<Rightarrow> real) \<Rightarrow> (real \<Rightarrow> real \<Rightarrow> real) \<Rightarrow> image_file \<Rightarrow> ndarray
     \<Rightarrow> decision" where
  "find_correct_rotation sim fsub image_file reference_img =
     (case imread_chinese image_file of
        Inl e \<Rightarrow> \<lparr>best_angle = 0, best_similarity = 0, similarity_scores = [], needs_manual_check = False\<rparr>
      | Inr test_img \<Rightarrow>
          (case score_angles sim reference_img (rotation_candidates test_img) (0, 0, []) of
             (angle, best, scores) \<Rightarrow>
               let similarity_diff = fsub best (second_best_similarity scores)
               in \<lparr>best_angle = angle, best_similarity = best, similarity_scores = scores,
                   needs_manual_check = (similarity_diff < SIMILARITY_THRESHOLD)\<rparr>))"

subsection \<open>Batch orchestration\<close>

text \<open>
  The run-level counters and the files written so far, in the order of the \<open>save\<close>
  calls. Console output is not modelled, but the dictionary and list reads made for it are,
  since they can raise.
\<close>

record batch_state =
  corrected_count :: nat
  already_correct_count :: nat
  failed_count :: nat
  manual_check_count :: nat
  saved :: "(string \<times> ndarray) list"

definition path_join :: "string \<Rightarrow> string \<Rightarrow> string" where
  "path_join folder name = folder @ ''/'' @ name"

definition dict_get :: "('k \<times> 'v) list \<Rightarrow> 'k \<Rightarrow> exn + 'v" where
  "dict_get d k = (case map_of d k of None \<Rightarrow> Inl KeyError | Some v \<Rightarrow> Inr v)"

definition list_get :: "'a list \<Rightarrow> nat \<Rightarrow> exn + 'a" where
  "list_get xs i = (if i < length xs then Inr (xs ! i) else Inl IndexError)"

text \<open>The per-angle report reads \<open>scores[deg]\<close> for each of the four angles.\<close>

fun show_scores :: "(int \<times> real) list \<Rightarrow> int list \<Rightarrow> exn + unit" where
  "show_scores scores [] = Inr ()"
| "show_scores scores (deg # rest) =
     (case dict_get scores deg of Inl e \<Rightarrow> Inl e | Inr v \<Rightarrow> show_scores scores rest)"

text \<open>\<open>sorted(scores.items(), key=lambda x: x[1], reverse=True)\<close>: a stable descending sort.\<close>

definition sorted_items_desc :: "(int \<times> real) list \<Rightarrow> (int \<times> real) list" where
  "sorted_items_desc items = rev (sort_key snd (rev items))"

definition initial_state :: batch_state where
  "initial_state = \<lparr>corrected_count = 0, already_correct_count = 0, failed_count = 0,
     manual_check_count = 0, saved = []\<rparr>"

text \<open>The body of the loop over \<open>image_files\<close>, for one file \<open>(name, content)\<close>. What is
  saved here is a decoded image or a rotation of it, which has at least one row and one column.\<close>

definition process_file ::
  "(ndarray \<Rightarrow> ndarray \<Rightarrow> real) \<Rightarrow> (real \<Rightarrow> real \<Rightarrow> real) \<Rightarrow> string \<Rightarrow> ndarray
     \<Rightarrow> string \<times> image_file \<Rightarrow> batch_state \<Rightarrow> exn + batch_state" where
  "process_file sim fsub output_folder reference_img img_file st =
     (case img_file of (name, content) \<Rightarrow>
      let d = find_correct_rotation sim fsub content reference_img;
          angle = best_angle d;
          scores = similarity_scores d;
          sorted_scores = sorted_items_desc scores
      in case show_scores scores [0, 90, 180, 270] of
           Inl e \<Rightarrow> Inl e
         | Inr u \<Rightarrow>
        (case list_get sorted_scores 0 of
           Inl e \<Rightarrow> Inl e
         | Inr s0 \<Rightarrow>
        (case list_get sorted_scores 1 of
           Inl e \<Rightarrow> Inl e
         | Inr s1 \<Rightarrow>
        (case content of
           None \<Rightarrow> Inl DecodeError
         | Some img \<Rightarrow>
        (case (if angle \<noteq> 0
               then pil_rotate (if angle \<noteq> 0 then 360 - angle else 0) True img
               else Some img) of
           None \<Rightarrow> Inl NotModelled
         | Some img_rotated \<Rightarrow>
             let st1 = (if angle \<noteq> 0
                        then st\<lparr>corrected_count := corrected_count st + 1\<rparr>
                        else st\<lparr>already_correct_count := already_correct_count st + 1\<rparr>);
                 st2 = (if needs_manual_check d
                        then st1\<lparr>manual_check_count := manual_check_count st1 + 1\<rparr>
                        else st1);
                 output_file = (if needs_manual_check d
                        then path_join (path_join output_folder ''manual_check'') name
                        else path_join output_folder name)
             in Inr (st2\<lparr>saved := saved st2 @ [(output_file, img_rotated)]\<rparr>))))))"

text \<open>The loop: an exception of the body is not caught and ends the run, leaving the
  state reached so far.\<close>

fun batch_loop ::
  "(ndarray \<Rightarrow> ndarray \<Rightarrow> real) \<Rightarrow> (real \<Rightarrow> real \<Rightarrow> real) \<Rightarrow> string \<Rightarrow> ndarray
     \<Rightarrow> (string \<times> image_file) list \<Rightarrow> batch_state \<Rightarrow> batch_state \<times> exn option" where
  "batch_loop sim fsub output_folder reference_img [] st = (st, None)"
| "batch_loop sim fsub output_folder reference_img (f # fs) st =
     (case process_file sim fsub output_folder reference_img f st of
        Inl e \<Rightarrow> (st, Some e)
      | Inr st' \<Rightarrow> batch_loop sim fsub output_folder reference_img fs st')"

datatype batch_result =
    ReferenceUnreadable
  | NoImageFiles
  | Aborted exn batch_state
  | Summary batch_state

definition batch_correct_with_template ::
  "(ndarray \<Rightarrow> ndarray \<Rightarrow> real) \<Rightarrow> (real \<Rightarrow> real \<Rightarrow> real) \<Rightarrow> (string \<times> image_file) list
     \<Rightarrow> string \<Rightarrow> image_file \<Rightarrow> batch_result" where
  "batch_correct_with_template sim fsub image_files output_folder reference_image =
     (case imread_chinese reference_image of
        Inl e \<Rightarrow> ReferenceUnreadable
      | Inr reference_img \<Rightarrow>
          if image_files = [] then NoImageFiles
          else (case batch_loop sim fsub output_folder reference_img image_files initial_state of
                  (st, Some e) \<Rightarrow> Aborted e st
                | (st, None) \<Rightarrow> Summary st))"

section \<open>split_images.py\<close>

text \<open>
  \<open>Image.save\<close> raises on an image of zero width or zero height; otherwise the file at the
  path holds the image. A crop box with \<open>right = left\<close> or \<open>lower = upper\<close> yields such an
  empty image.
\<close>

definition image_save :: "string \<Rightarrow> ndarray \<Rightarrow> exn + (string \<times> ndarray)" where
  "image_save output_file im =
     (if shape0 im = 0 \<or> shape1 im = 0 then Inl SaveError else Inr (output_file, im))"

text \<open>The result is the path and the content of the file that is saved.\<close>

definition extract_part_from_image ::
  "string \<times> image_file \<Rightarrow> string \<Rightarrow> int \<Rightarrow> string \<Rightarrow> exn + (string \<times> ndarray)" where
  "extract_part_from_image img_file output_folder part_index direction =
     (case img_file of (name, content) \<Rightarrow>
      case content of
        None \<Rightarrow> Inl DecodeError
      | Some img \<Rightarrow>
          let width = int (shape1 img); height = int (shape0 img) in
          if part_index \<notin> set [1, 2, 3] then Inl ValueError
          else
            let i = part_index - 1 in
            if direction = ''horizontal'' then
              let part_width = width div 3;
                  left = i * part_width;
                  right = (if i < 2 then (i + 1) * part_width else width)
              in image_save (path_join output_folder name) (pil_crop (left, 0, right, height) img)
            else
              let part_height = height div 3;
                  top = i * part_height;
                  bottom = (if i < 2 then (i + 1) * part_height else height)
              in image_save (path_join output_folder name) (pil_crop (0, top, width, bottom) img))"

section \<open>crop_white_edges.py\<close>

definition np_mean :: "nat list \<Rightarrow> real" where
  "np_mean p = real (sum_list p) / real (length p)"

text \<open>\<open>np.where(gray < threshold)\<close>: the (row, column) positions, row by row.\<close>

definition np_where_lt :: "real grid \<Rightarrow> real \<Rightarrow> (nat \<times> nat) list" where
  "np_where_lt gray threshold =
     concat (map (\<lambda>i. map (\<lambda>j. (i, j)) (filter (\<lambda>j. gray ! i ! j < threshold) [0..<length (gray ! i)]))
                 [0..<length gray])"

text \<open>\<open>img_array[:, :, :3]\<close>: three indices on a two-dimensional array raise.\<close>

fun drop_alpha :: "ndarray \<Rightarrow> exn + ndarray" where
  "drop_alpha (Arr2 m) = Inl IndexError"
| "drop_alpha (Arr3 m) = Inr (Arr3 (map (map (take 3)) m))"

fun gray_of :: "ndarray \<Rightarrow> real grid" where
  "gray_of (Arr3 m) = map (map np_mean) m"
| "gray_of (Arr2 m) = map (map real) m"

definition crop_white_edges :: "ndarray \<Rightarrow> real \<Rightarrow> int \<Rightarrow> exn + ndarray" where
  "crop_white_edges img threshold padding =
     (case (if shape_last img = 4 then drop_alpha img else Inr img) of
        Inl e \<Rightarrow> Inl e
      | Inr img_array \<Rightarrow>
          let gray = gray_of img_array;
              non_white_pixels = np_where_lt gray threshold;
              ys = map fst non_white_pixels;
              xs = map snd non_white_pixels
          in if length ys = 0 \<or> length xs = 0 then Inr img
             else
               let top = max 0 (int (Min (set ys)) - padding);
                   bottom = min (int (shape0 img_array)) (int (Max (set ys)) + padding + 1);
                   left = max 0 (int (Min (set xs)) - padding);
                   right = min (int (shape1 img_array)) (int (Max (set xs)) + padding + 1)
               in Inr (pil_crop (left, top, right, bottom) img))"

section \<open>Reference notions used in the statements\<close>

text \<open>A quarter turn clockwise: the pixel at row \<open>i\<close>, column \<open>j\<close> of an image of
  \<open>h\<close> rows moves to row \<open>j\<close>, column \<open>h - 1 - i\<close>.\<close>

definition clockwise_quarter :: "'a grid \<Rightarrow> 'a grid" where
  "clockwise_quarter m = map (\<lambda>r. map (\<lambda>c. m ! (rows m - 1 - c) ! r) [0..<rows m]) [0..<cols m]"

definition quarter_turn :: "ndarray \<Rightarrow> ndarray" where
  "quarter_turn a = map_grid clockwise_quarter clockwise_quarter a"

text \<open>Clockwise rotation by \<open>k\<close> quarter turns.\<close>

definition rotate_clockwise :: "nat \<Rightarrow> ndarray \<Rightarrow> ndarray" where
  "rotate_clockwise k a = (quarter_turn ^^ k) a"

text \<open>The earliest key, in the order of the dictionary, whose value is the largest one.\<close>

definition earliest_argmax :: "(int \<times> real) list \<Rightarrow> int option" where
  "earliest_argmax scores =
     map_option fst (find (\<lambda>kv. snd kv = Max (set (map snd scores))) scores)"

text \<open>The second-highest distinct value, 0 when there is none.\<close>

definition second_highest_distinct :: "real list \<Rightarrow> real" where
  "second_highest_distinct vs =
     (let ds = remdups (sorted_desc vs) in if length ds > 1 then ds ! 1 else 0)"

text \<open>Columns (rows) \<open>lo\<close> up to but excluding \<open>hi\<close> of a raster.\<close>

definition column_slice :: "nat \<Rightarrow> nat \<Rightarrow> 'a grid \<Rightarrow> 'a grid" where
  "column_slice lo hi m = map (\<lambda>row. map (\<lambda>x. row ! x) [lo..<hi]) m"

definition row_slice :: "nat \<Rightarrow> nat \<Rightarrow> 'a grid \<Rightarrow> 'a grid" where
  "row_slice lo hi m = map (\<lambda>y. m ! y) [lo..<hi]"

definition slice_columns :: "nat \<Rightarrow> nat \<Rightarrow> ndarray \<Rightarrow> ndarray" where
  "slice_columns lo hi a = map_grid (column_slice lo hi) (column_slice lo hi) a"

definition slice_rows :: "nat \<Rightarrow> nat \<Rightarrow> ndarray \<Rightarrow> ndarray" where
  "slice_rows lo hi a = map_grid (row_slice lo hi) (row_slice lo hi) a"

text \<open>The grayscale intensity of each pixel: the sample itself in a single-channel image,
  the mean of the colour channels, alpha left out, otherwise.\<close>

definition intensity :: "ndarray \<Rightarrow> real grid" where
  "intensity a = (case a of
       Arr2 m \<Rightarrow> map (map real) m
     | Arr3 m \<Rightarrow> map (map (\<lambda>p. np_mean (if channels m = 4 then take 3 p else p))) m)"

subsection \<open>Sample inputs\<close>

text \<open>A scorer that reads the top-left sample of the candidate, so that the four rotations
  of a 2 by 2 raster score its four corners; one that does the same with negative scores, as
  SSIM gives for anti-correlated images; and one that scores the threshold itself where the top-left
  sample is 1 and 0 elsewhere. \<open>exact_sub\<close> is the floating-point subtraction on operands
  whose difference is a double, where no rounding takes place.\<close>

fun corner_sim :: "ndarray \<Rightarrow> ndarray \<Rightarrow> real" where
  "corner_sim reference_img (Arr2 m) = real (m ! 0 ! 0) / 200"
| "corner_sim reference_img (Arr3 m) = real (m ! 0 ! 0 ! 0) / 200"

fun negative_sim :: "ndarray \<Rightarrow> ndarray \<Rightarrow> real" where
  "negative_sim reference_img (Arr2 m) = - (real (m ! 0 ! 0) / 8)"
| "negative_sim reference_img (Arr3 m) = - (real (m ! 0 ! 0 ! 0) / 8)"


definition exact_sub :: "real \<Rightarrow> real \<Rightarrow> real" where
  "exact_sub a b = a - b"

definition rgb_pixel_image :: ndarray where
  "rgb_pixel_image = Arr3 [[[10, 20, 30], [40, 50, 60]]]"

definition tied_corners :: ndarray where
  "tied_corners = Arr2 [[180, 80], [180, 100]]"

definition boundary_corners :: ndarray where
  "boundary_corners = Arr2 [[103, 20], [100, 40]]"

definition white_gray_4wide :: ndarray where
  "white_gray_4wide = Arr2 [[255, 255, 255, 255]]"

definition white_rgba :: ndarray where
  "white_rgba = Arr3 [[[255, 255, 255, 0], [250, 251, 252, 7]]]"

definition anticorrelated :: ndarray where
  "anticorrelated = Arr2 [[4, 6], [1, 2]]"


definition best_at_90 :: ndarray where
  "best_at_90 = Arr2 [[20, 40], [180, 100]]"

definition two_wide :: ndarray where
  "two_wide = Arr2 [[1, 2], [3, 4]]"

definition seven_wide :: ndarray where
  "seven_wide = Arr2 [[1, 2, 3, 4, 5, 6, 7], [8, 9, 10, 11, 12, 13, 14]]"

section \<open>The decision of find_correct_rotation\<close>

lemma scores_loaded:
  assumes "imread_chinese f = Inr t"
  shows "similarity_scores (find_correct_rotation sim fsub f ref) =
     [(0, sim ref (rotate_candidate 0 t)), (90, sim ref (rotate_candidate 90 t)),
      (180, sim ref (rotate_candidate 180 t)), (270, sim ref (rotate_candidate 270 t))]"
  using assms
  by (simp add: find_correct_rotation_def rotation_candidates_def Let_def split: prod.split if_splits)

lemma best_loaded:
  assumes "imread_chinese f = Inr t"
  shows "best_similarity (find_correct_rotation sim fsub f ref) =
     max 0 (Max (set (map snd (similarity_scores (find_correct_rotation sim fsub f ref)))))"
  unfolding scores_loaded[OF assms]
  using assms
  by (simp add: find_correct_rotation_def rotation_candidates_def Let_def max_def split: prod.split if_splits)

lemma best_loaded_positive:
  assumes "imread_chinese f = Inr t"
    and "0 < Max (set (map snd (similarity_scores (find_correct_rotation sim fsub f ref))))"
  shows "best_similarity (find_correct_rotation sim fsub f ref) =
     Max (set (map snd (similarity_scores (find_correct_rotation sim fsub f ref))))"
  using best_loaded[OF assms(1), of sim fsub ref] assms(2) by simp

lemma angle_loaded_positive:
  assumes "imread_chinese f = Inr t"
    and "0 < Max (set (map snd (similarity_scores (find_correct_rotation sim fsub f ref))))"
  shows "earliest_argmax (similarity_scores (find_correct_rotation sim fsub f ref)) =
     Some (best_angle (find_correct_rotation sim fsub f ref))"
  using assms(2) unfolding scores_loaded[OF assms(1)] earliest_argmax_def
  using assms(1)
  by (simp add: find_correct_rotation_def rotation_candidates_def Let_def max_def split: prod.split if_splits)

lemma best_angle_range:
  "best_angle (find_correct_rotation sim fsub f ref) \<in> {0, 90, 180, 270}"
  by (simp add: find_correct_rotation_def rotation_candidates_def Let_def split: prod.split if_splits sum.split)

lemma second_loaded:
  assumes "imread_chinese f = Inr t"
  shows "second_best_similarity (similarity_scores (find_correct_rotation sim fsub f ref)) =
     Max (set (remove1 (Max (set (map snd (similarity_scores (find_correct_rotation sim fsub f ref)))))
        (map snd (similarity_scores (find_correct_rotation sim fsub f ref)))))"
  unfolding scores_loaded[OF assms]
  by (simp add: second_best_similarity_def sorted_desc_def Let_def max_def insort_key.simps split: if_splits)

lemma flag_loaded:
  assumes "imread_chinese f = Inr t"
  shows "needs_manual_check (find_correct_rotation sim fsub f ref) \<longleftrightarrow>
     fsub (best_similarity (find_correct_rotation sim fsub f ref))
          (second_best_similarity (similarity_scores (find_correct_rotation sim fsub f ref)))
       < SIMILARITY_THRESHOLD"
  using assms
  by (simp add: find_correct_rotation_def Let_def split: prod.split)


text \<open>Where the largest score is positive, the decision is consistent with the score map:
  the recorded best score is the maximum of the map and the recorded best angle is the
  earliest angle, in the order 0, 90, 180, 270, whose score is that maximum.\<close>

lemma find_correct_rotation_consistent_positive:
  assumes "imread_chinese f = Inr t"
    and "d = find_correct_rotation sim fsub f ref"
    and "0 < Max (set (map snd (similarity_scores d)))"
  shows "map fst (similarity_scores d) = [0, 90, 180, 270]
     \<and> best_similarity d = Max (set (map snd (similarity_scores d)))
     \<and> earliest_argmax (similarity_scores d) = Some (best_angle d)"
proof (intro conjI)
  show "map fst (similarity_scores d) = [0, 90, 180, 270]"
    unfolding assms(2) scores_loaded[OF assms(1)] by simp
  show "best_similarity d = Max (set (map snd (similarity_scores d)))"
    using assms(3) unfolding assms(2) by (rule best_loaded_positive[OF assms(1)])
  show "earliest_argmax (similarity_scores d) = Some (best_angle d)"
    using assms(3) unfolding assms(2) by (rule angle_loaded_positive[OF assms(1)])
qed

text \<open>
  C1. The claim: for an image that loads, the recorded best score is the maximum of the
  angle-to-score map and the recorded best angle is the earliest angle attaining it. On an
  image whose four scores are -0.5, -0.125, -0.25, -0.75 the function returns angle 0 with
  best score 0: the initial value of \<open>best_similarity\<close>, which is no angle's score. The
  maximum of the map is -0.125, at angle 90, and the decision is not flagged.
\<close>

theorem find_correct_rotation_negative_scores:
  "imread_chinese (Some anticorrelated) = Inr anticorrelated
   \<and> find_correct_rotation negative_sim exact_sub (Some anticorrelated) rgb_pixel_image =
       \<lparr>best_angle = 0, best_similarity = 0,
        similarity_scores = [(0, - (1 / 2)), (90, - (1 / 8)), (180, - (1 / 4)), (270, - (3 / 4))],
        needs_manual_check = False\<rparr>
   \<and> Max (set (map snd (similarity_scores
        (find_correct_rotation negative_sim exact_sub (Some anticorrelated) rgb_pixel_image))))
       = - (1 / 8)
   \<and> earliest_argmax (similarity_scores
        (find_correct_rotation negative_sim exact_sub (Some anticorrelated) rgb_pixel_image))
       = Some 90
   \<and> best_similarity (find_correct_rotation negative_sim exact_sub (Some anticorrelated) rgb_pixel_image)
      \<notin> snd ` set (similarity_scores
        (find_correct_rotation negative_sim exact_sub (Some anticorrelated) rgb_pixel_image))"
proof -
  have ld: "imread_chinese (Some anticorrelated) = Inr anticorrelated"
    by code_simp
  have ev: "find_correct_rotation negative_sim exact_sub (Some anticorrelated) rgb_pixel_image =
       \<lparr>best_angle = 0, best_similarity = 0,
        similarity_scores = [(0, - (1 / 2)), (90, - (1 / 8)), (180, - (1 / 4)), (270, - (3 / 4))],
        needs_manual_check = False\<rparr>"
    by (simp add: find_correct_rotation_def imread_chinese_def anticorrelated_def
        rotation_candidates_def rotate_candidate_def cv_rotate_def cv_transpose_def cv_flip_def
        rows_def cols_def Let_def second_best_similarity_def sorted_desc_def
        SIMILARITY_THRESHOLD_def exact_sub_def)
  show ?thesis unfolding ev using ld by (simp add: earliest_argmax_def)
qed

text \<open>
  C2 (as amended). When the image loads, the second-best score used in the margin is the
  second entry of the scores sorted in descending order, duplicates counted: the largest
  score that remains after one occurrence of the maximum is removed. The flag compares the
  recorded best score minus that value with the threshold.
\<close>

theorem second_best_is_second_ranked:
  assumes "imread_chinese f = Inr t"
    and "d = find_correct_rotation sim fsub f ref"
  shows "second_best_similarity (similarity_scores d) =
           Max (set (remove1 (Max (set (map snd (similarity_scores d)))) (map snd (similarity_scores d))))
     \<and> (needs_manual_check d \<longleftrightarrow>
           fsub (best_similarity d)
             (Max (set (remove1 (Max (set (map snd (similarity_scores d)))) (map snd (similarity_scores d)))))
           < SIMILARITY_THRESHOLD)"
  unfolding assms(2)
  using second_loaded[OF assms(1), of sim fsub ref] flag_loaded[OF assms(1), of sim fsub ref]
  by simp

theorem second_best_is_second_ranked_witness:
  "imread_chinese (Some tied_corners) = Inr tied_corners
   \<and> second_best_similarity (similarity_scores
        (find_correct_rotation corner_sim exact_sub (Some tied_corners) rgb_pixel_image)) = 9 / 10
   \<and> Max (set (remove1 (9 / 10) [9 / 10, 9 / 10, 1 / 2, 2 / 5 :: real])) = 9 / 10
   \<and> needs_manual_check (find_correct_rotation corner_sim exact_sub (Some tied_corners) rgb_pixel_image)"
proof -
  have ld: "imread_chinese (Some tied_corners) = Inr tied_corners"
    by code_simp
  have ev: "find_correct_rotation corner_sim exact_sub (Some tied_corners) rgb_pixel_image =
    \<lparr>best_angle = 0, best_similarity = 9 / 10,
      similarity_scores = [(0, 9 / 10), (90, 9 / 10), (180, 1 / 2), (270, 2 / 5)],
      needs_manual_check = True\<rparr>"
    by code_simp
  show ?thesis
    using second_best_is_second_ranked[OF ld refl, of corner_sim exact_sub rgb_pixel_image] ld
    unfolding ev by (simp add: SIMILARITY_THRESHOLD_def exact_sub_def)
qed

theorem second_best_distinct_counterexample:
  "imread_chinese (Some tied_corners) = Inr tied_corners
   \<and> second_best_similarity (similarity_scores
        (find_correct_rotation corner_sim exact_sub (Some tied_corners) rgb_pixel_image)) = 9 / 10
   \<and> second_highest_distinct (map snd (similarity_scores
        (find_correct_rotation corner_sim exact_sub (Some tied_corners) rgb_pixel_image))) = 1 / 2
   \<and> needs_manual_check (find_correct_rotation corner_sim exact_sub (Some tied_corners) rgb_pixel_image)
   \<and> \<not> (exact_sub
          (best_similarity (find_correct_rotation corner_sim exact_sub (Some tied_corners) rgb_pixel_image))
          (second_highest_distinct (map snd (similarity_scores
              (find_correct_rotation corner_sim exact_sub (Some tied_corners) rgb_pixel_image))))
        < SIMILARITY_THRESHOLD)"
proof -
  have ld: "imread_chinese (Some tied_corners) = Inr tied_corners"
    by code_simp
  have ev: "find_correct_rotation corner_sim exact_sub (Some tied_corners) rgb_pixel_image =
    \<lparr>best_angle = 0, best_similarity = 9 / 10,
      similarity_scores = [(0, 9 / 10), (90, 9 / 10), (180, 1 / 2), (270, 2 / 5)],
      needs_manual_check = True\<rparr>"
    by code_simp
  show ?thesis unfolding ev using ld
    by (simp add: second_best_similarity_def second_highest_distinct_def sorted_desc_def
        SIMILARITY_THRESHOLD_def exact_sub_def)
qed



section \<open>Rotations of rasters\<close>

lemma rect_rows: "rect h w m \<Longrightarrow> rows m = h"
  by (simp add: rect_def rows_def)

lemma rect_cols: "rect h w m \<Longrightarrow> 0 < h \<Longrightarrow> cols m = w"
  by (cases m) (auto simp: rect_def cols_def)

lemma rect_nth: "rect h w m \<Longrightarrow> i < h \<Longrightarrow> length (m ! i) = w"
  by (auto simp: rect_def list_all_length)

lemma rev_map_upt: "rev (map f [0..<n]) = map (\<lambda>i. f (n - 1 - i)) [0..<n]"
  by (rule nth_equalityI) (auto simp: rev_nth)

lemma grid_eqI:
  assumes "rect h w a" and "rect h w b"
    and "\<And>i j. i < h \<Longrightarrow> j < w \<Longrightarrow> a ! i ! j = b ! i ! j"
  shows "a = b"
proof (rule nth_equalityI)
  show "length a = length b" using assms(1,2) by (simp add: rect_def)
next
  fix i assume i: "i < length a"
  then have ih: "i < h" using assms(1) by (simp add: rect_def)
  show "a ! i = b ! i"
  proof (rule nth_equalityI)
    show "length (a ! i) = length (b ! i)"
      using rect_nth[OF assms(1) ih] rect_nth[OF assms(2) ih] by simp
  next
    fix j assume "j < length (a ! i)"
    then have "j < w" using rect_nth[OF assms(1) ih] by simp
    then show "a ! i ! j = b ! i ! j" using assms(3) ih by blast
  qed
qed

lemma rect_clockwise_quarter: "rect (cols m) (rows m) (clockwise_quarter m)"
  by (simp add: rect_def clockwise_quarter_def list_all_iff)

lemma rows_clockwise_quarter: "rows (clockwise_quarter m) = cols m"
  by (simp add: rows_def clockwise_quarter_def)

lemma cols_clockwise_quarter: "0 < cols m \<Longrightarrow> cols (clockwise_quarter m) = rows m"
  using rect_cols[OF rect_clockwise_quarter, of m] by simp

lemma clockwise_quarter_nth:
  "r < cols m \<Longrightarrow> c < rows m \<Longrightarrow> clockwise_quarter m ! r ! c = m ! (rows m - 1 - c) ! r"
  by (simp add: clockwise_quarter_def)

lemma cv_rotate_90_clockwise:
  "cv_rotate_grid ROTATE_90_CLOCKWISE m = clockwise_quarter m"
  by (simp add: cv_flip_def cv_transpose_def clockwise_quarter_def rev_map_upt)

lemma half_turn_nth:
  assumes "rect h w m" "0 < h" "0 < w" "i < h" "j < w"
  shows "clockwise_quarter (clockwise_quarter m) ! i ! j = m ! (h - 1 - i) ! (w - 1 - j)"
proof -
  have r: "rows m = h" and c: "cols m = w" using assms by (simp_all add: rect_rows rect_cols)
  have "clockwise_quarter (clockwise_quarter m) ! i ! j
        = clockwise_quarter m ! (w - 1 - j) ! i"
    using assms by (simp add: clockwise_quarter_nth rows_clockwise_quarter cols_clockwise_quarter r c)
  also have "\<dots> = m ! (h - 1 - i) ! (w - 1 - j)"
    using assms by (simp add: clockwise_quarter_nth r c)
  finally show ?thesis .
qed

lemma rect_half_turn:
  assumes "rect h w m" "0 < h" "0 < w"
  shows "rect h w (clockwise_quarter (clockwise_quarter m))"
proof -
  have r: "rows m = h" and c: "cols m = w" using assms by (simp_all add: rect_rows rect_cols)
  show ?thesis
    using rect_clockwise_quarter[of "clockwise_quarter m"]
    by (simp add: rows_clockwise_quarter cols_clockwise_quarter r c assms)
qed

lemma cv_rotate_180:
  assumes "rect h w m" "0 < h" "0 < w"
  shows "cv_rotate_grid ROTATE_180 m = clockwise_quarter (clockwise_quarter m)"
proof (rule grid_eqI[where h = h and w = w])
  show "rect h w (cv_rotate_grid ROTATE_180 m)"
    using assms(1) by (simp add: cv_flip_def rect_def list_all_iff)
  show "rect h w (clockwise_quarter (clockwise_quarter m))"
    by (rule rect_half_turn[OF assms])
  fix i j assume ij: "i < h" "j < w"
  have len: "length m = h" using assms(1) by (simp add: rect_def)
  have "cv_rotate_grid ROTATE_180 m ! i ! j = rev (m ! (h - 1 - i)) ! j"
    using ij len by (simp add: cv_flip_def rev_nth)
  also have "\<dots> = m ! (h - 1 - i) ! (w - 1 - j)"
    using ij rect_nth[OF assms(1), of "h - 1 - i"] by (simp add: rev_nth)
  finally show "cv_rotate_grid ROTATE_180 m ! i ! j
      = clockwise_quarter (clockwise_quarter m) ! i ! j"
    using half_turn_nth[OF assms ij] by simp
qed

lemma rect_three_quarters:
  assumes "rect h w m" "0 < h" "0 < w"
  shows "rect w h (clockwise_quarter (clockwise_quarter (clockwise_quarter m)))"
proof -
  let ?m2 = "clockwise_quarter (clockwise_quarter m)"
  have "rows ?m2 = h" "cols ?m2 = w"
    using rect_half_turn[OF assms] assms by (simp_all add: rect_rows rect_cols)
  then show ?thesis using rect_clockwise_quarter[of ?m2] by simp
qed

lemma three_quarters_nth:
  assumes "rect h w m" "0 < h" "0 < w" "i < w" "j < h"
  shows "clockwise_quarter (clockwise_quarter (clockwise_quarter m)) ! i ! j = m ! j ! (w - 1 - i)"
proof -
  let ?m2 = "clockwise_quarter (clockwise_quarter m)"
  have r2: "rows ?m2 = h" and c2: "cols ?m2 = w"
    using rect_half_turn[OF assms(1-3)] assms by (simp_all add: rect_rows rect_cols)
  have "clockwise_quarter ?m2 ! i ! j = ?m2 ! (h - 1 - j) ! i"
    using assms by (simp add: clockwise_quarter_nth r2 c2)
  also have "\<dots> = m ! (h - 1 - (h - 1 - j)) ! (w - 1 - i)"
    using assms by (simp add: half_turn_nth)
  also have "\<dots> = m ! j ! (w - 1 - i)"
    using assms by simp
  finally show ?thesis .
qed

lemma cv_rotate_90_counterclockwise:
  assumes "rect h w m" "0 < h" "0 < w"
  shows "cv_rotate_grid ROTATE_90_COUNTERCLOCKWISE m
         = clockwise_quarter (clockwise_quarter (clockwise_quarter m))"
proof (rule grid_eqI[where h = w and w = h])
  have r: "rows m = h" and c: "cols m = w" using assms by (simp_all add: rect_rows rect_cols)
  show "rect w h (cv_rotate_grid ROTATE_90_COUNTERCLOCKWISE m)"
    by (simp add: cv_flip_def cv_transpose_def rect_def list_all_iff r c)
  show "rect w h (clockwise_quarter (clockwise_quarter (clockwise_quarter m)))"
    by (rule rect_three_quarters[OF assms])
  fix i j assume ij: "i < w" "j < h"
  have "cv_rotate_grid ROTATE_90_COUNTERCLOCKWISE m ! i ! j = m ! j ! (w - 1 - i)"
    using ij by (simp add: cv_flip_def cv_transpose_def r c rev_nth)
  then show "cv_rotate_grid ROTATE_90_COUNTERCLOCKWISE m ! i ! j
      = clockwise_quarter (clockwise_quarter (clockwise_quarter m)) ! i ! j"
    using three_quarters_nth[OF assms ij] by simp
qed

lemma pil_rotate_270_grid: "pil_transpose_grid PIL_ROTATE_270 m = cv_rotate_grid ROTATE_90_CLOCKWISE m"
  by (simp add: cv_flip_def cv_transpose_def rev_map_upt)

lemma pil_rotate_90_grid:
  "pil_transpose_grid PIL_ROTATE_90 m = cv_rotate_grid ROTATE_90_COUNTERCLOCKWISE m"
  by (simp add: cv_flip_def cv_transpose_def rev_map_upt)

lemma pil_rotate_180_grid:
  assumes "rect h w m" "0 < h" "0 < w"
  shows "pil_transpose_grid PIL_ROTATE_180 m = cv_rotate_grid ROTATE_180 m"
proof (rule grid_eqI[where h = h and w = w])
  have r: "rows m = h" and c: "cols m = w" using assms by (simp_all add: rect_rows rect_cols)
  show "rect h w (pil_transpose_grid PIL_ROTATE_180 m)"
    by (simp add: rect_def list_all_iff r c)
  show "rect h w (cv_rotate_grid ROTATE_180 m)"
    using assms(1) by (simp add: cv_flip_def rect_def list_all_iff)
  fix i j assume ij: "i < h" "j < w"
  have len: "length m = h" using assms(1) by (simp add: rect_def)
  have "cv_rotate_grid ROTATE_180 m ! i ! j = rev (m ! (h - 1 - i)) ! j"
    using ij len by (simp add: cv_flip_def rev_nth)
  also have "\<dots> = m ! (h - 1 - i) ! (w - 1 - j)"
    using ij rect_nth[OF assms(1), of "h - 1 - i"] by (simp add: rev_nth)
  finally show "pil_transpose_grid PIL_ROTATE_180 m ! i ! j = cv_rotate_grid ROTATE_180 m ! i ! j"
    using ij by (simp add: r c)
qed

lemma full_turn:
  assumes "rect h w m" "0 < h" "0 < w"
  shows "clockwise_quarter (clockwise_quarter (clockwise_quarter (clockwise_quarter m))) = m"
proof (rule grid_eqI[where h = h and w = w])
  let ?m2 = "clockwise_quarter (clockwise_quarter m)"
  have r2: "rect h w ?m2" by (rule rect_half_turn[OF assms])
  show "rect h w (clockwise_quarter (clockwise_quarter ?m2))"
    by (rule rect_half_turn[OF r2 assms(2,3)])
  show "rect h w m" by (rule assms(1))
  fix i j assume ij: "i < h" "j < w"
  have "clockwise_quarter (clockwise_quarter ?m2) ! i ! j = ?m2 ! (h - 1 - i) ! (w - 1 - j)"
    by (rule half_turn_nth[OF r2 assms(2,3) ij])
  also have "\<dots> = m ! (h - 1 - (h - 1 - i)) ! (w - 1 - (w - 1 - j))"
    using ij by (intro half_turn_nth[OF assms]) simp_all
  also have "\<dots> = m ! i ! j" using ij by simp
  finally show "clockwise_quarter (clockwise_quarter ?m2) ! i ! j = m ! i ! j" .
qed

lemma cv_rotate_180_shape:
  "rect (rows m) (cols m) m \<Longrightarrow> 0 < rows m \<Longrightarrow> 0 < cols m
   \<Longrightarrow> cv_rotate_grid ROTATE_180 m = clockwise_quarter (clockwise_quarter m)"
  by (rule cv_rotate_180)

lemma cv_rotate_90_counterclockwise_shape:
  "rect (rows m) (cols m) m \<Longrightarrow> 0 < rows m \<Longrightarrow> 0 < cols m
   \<Longrightarrow> cv_rotate_grid ROTATE_90_COUNTERCLOCKWISE m
       = clockwise_quarter (clockwise_quarter (clockwise_quarter m))"
  by (rule cv_rotate_90_counterclockwise)

lemma pil_rotate_180_grid_shape:
  "rect (rows m) (cols m) m \<Longrightarrow> 0 < rows m \<Longrightarrow> 0 < cols m
   \<Longrightarrow> pil_transpose_grid PIL_ROTATE_180 m = cv_rotate_grid ROTATE_180 m"
  by (rule pil_rotate_180_grid)

lemma full_turn_shape:
  "rect (rows m) (cols m) m \<Longrightarrow> 0 < rows m \<Longrightarrow> 0 < cols m
   \<Longrightarrow> clockwise_quarter (clockwise_quarter (clockwise_quarter (clockwise_quarter m))) = m"
  by (rule full_turn)

subsection \<open>Arrays\<close>

lemma rotate_clockwise_1: "rotate_clockwise 1 a = quarter_turn a"
  by (simp add: rotate_clockwise_def)

lemma rotate_clockwise_2: "rotate_clockwise 2 a = quarter_turn (quarter_turn a)"
  by (simp add: rotate_clockwise_def numeral_2_eq_2)

lemma rotate_clockwise_3: "rotate_clockwise 3 a = quarter_turn (quarter_turn (quarter_turn a))"
  by (simp add: rotate_clockwise_def numeral_3_eq_3)

lemma cv_rotate_clockwise_array: "cv_rotate ROTATE_90_CLOCKWISE a = rotate_clockwise 1 a"
  unfolding rotate_clockwise_1
  by (cases a) (simp_all only: cv_rotate_def quarter_turn_def map_grid.simps cv_rotate_90_clockwise)

lemma cv_rotate_180_array:
  assumes "wf_image a"
  shows "cv_rotate ROTATE_180 a = rotate_clockwise 2 a"
  unfolding rotate_clockwise_2 using assms
  by (cases a) (simp_all add: cv_rotate_def quarter_turn_def cv_rotate_180_shape del: cv_rotate_grid.simps)

lemma cv_rotate_counterclockwise_array:
  assumes "wf_image a"
  shows "cv_rotate ROTATE_90_COUNTERCLOCKWISE a = rotate_clockwise 3 a"
  unfolding rotate_clockwise_3 using assms
  by (cases a)
    (simp_all add: cv_rotate_def quarter_turn_def cv_rotate_90_counterclockwise_shape del: cv_rotate_grid.simps)

lemma rotate_candidate_clockwise:
  assumes "wf_image a"
  shows "rotate_candidate 0 a = a"
    and "rotate_candidate 90 a = rotate_clockwise 1 a"
    and "rotate_candidate 180 a = rotate_clockwise 2 a"
    and "rotate_candidate 270 a = rotate_clockwise 3 a"
  using assms
  by (simp_all add: rotate_candidate_def cv_rotate_clockwise_array cv_rotate_180_array
      cv_rotate_counterclockwise_array)

lemma shape_quarter_turn:
  "shape0 (quarter_turn a) = shape1 a" "0 < shape1 a \<Longrightarrow> shape1 (quarter_turn a) = shape0 a"
  by (cases a; simp add: quarter_turn_def rows_clockwise_quarter cols_clockwise_quarter)+

lemma channels_clockwise_quarter:
  assumes "rect h w m" "0 < h" "0 < w"
  shows "channels (clockwise_quarter m) = length (m ! (h - 1) ! 0)"
proof -
  have r: "rows m = h" and c: "cols m = w" using assms by (simp_all add: rect_rows rect_cols)
  have ne: "clockwise_quarter m \<noteq> []" "clockwise_quarter m ! 0 \<noteq> []"
    using assms by (simp_all add: clockwise_quarter_def r c)
  have "channels (clockwise_quarter m) = length (clockwise_quarter m ! 0 ! 0)"
    using ne by (cases "clockwise_quarter m"; cases "clockwise_quarter m ! 0") (auto simp: channels_def)
  also have "\<dots> = length (m ! (h - 1) ! 0)"
    using assms by (simp add: clockwise_quarter_nth r c)
  finally show ?thesis .
qed

lemma pixel_length:
  assumes "list_all (list_all (\<lambda>p. length p = k)) m" "rect h w m" "i < h" "j < w"
  shows "length (m ! i ! j) = k"
proof -
  have "i < length m" using assms(2,3) by (simp add: rect_def)
  then have "list_all (\<lambda>p. length p = k) (m ! i)"
    using assms(1) by (simp add: list_all_length)
  moreover have "j < length (m ! i)" using rect_nth[OF assms(2,3)] assms(4) by simp
  ultimately show ?thesis by (simp add: list_all_length)
qed

lemma wf_quarter_turn:
  assumes "wf_image a"
  shows "wf_image (quarter_turn a)"
proof (cases a)
  case (Arr2 m)
  then show ?thesis
    using assms rect_clockwise_quarter[of m]
    by (simp add: quarter_turn_def rows_clockwise_quarter cols_clockwise_quarter)
next
  case (Arr3 m)
  let ?h = "rows m" and ?w = "cols m"
  have rc: "rect ?h ?w m" "0 < ?h" "0 < ?w" and ch: "0 < channels m"
    and px: "list_all (list_all (\<lambda>p. length p = channels m)) m"
    using assms Arr3 by simp_all
  have ceq: "channels (clockwise_quarter m) = channels m"
    using channels_clockwise_quarter[OF rc] pixel_length[OF px rc(1), of "?h - 1" 0] rc by simp
  have "list_all (list_all (\<lambda>p. length p = channels m)) (clockwise_quarter m)"
    unfolding clockwise_quarter_def list_all_iff
    using pixel_length[OF px rc(1)] by auto
  then show ?thesis
    using Arr3 rc ch rect_clockwise_quarter[of m]
    by (simp add: quarter_turn_def rows_clockwise_quarter cols_clockwise_quarter ceq)
qed

lemma quarter_turn_four:
  assumes "wf_image a"
  shows "quarter_turn (quarter_turn (quarter_turn (quarter_turn a))) = a"
  using assms by (cases a) (simp_all add: quarter_turn_def full_turn_shape)

lemma pil_rotate_quarter_turns:
  assumes "wf_image a"
  shows "pil_rotate 270 True a = Some (rotate_clockwise 1 a)"
    and "pil_rotate 180 True a = Some (rotate_clockwise 2 a)"
    and "pil_rotate 90 True a = Some (rotate_clockwise 3 a)"
proof -
  show "pil_rotate 270 True a = Some (rotate_clockwise 1 a)"
    unfolding cv_rotate_clockwise_array[symmetric]
    by (cases a)
      (simp_all add: pil_rotate_def pil_transpose_def cv_rotate_def pil_rotate_270_grid
        del: pil_transpose_grid.simps cv_rotate_grid.simps)
  show "pil_rotate 180 True a = Some (rotate_clockwise 2 a)"
    unfolding cv_rotate_180_array[OF assms, symmetric] using assms
    by (cases a)
      (simp_all add: pil_rotate_def pil_transpose_def cv_rotate_def pil_rotate_180_grid_shape
        del: pil_transpose_grid.simps cv_rotate_grid.simps)
  show "pil_rotate 90 True a = Some (rotate_clockwise 3 a)"
    unfolding cv_rotate_counterclockwise_array[OF assms, symmetric]
    by (cases a)
      (simp_all add: pil_rotate_def pil_transpose_def cv_rotate_def pil_rotate_90_grid
        del: pil_transpose_grid.simps cv_rotate_grid.simps)
qed

subsection \<open>Colour conversion commutes with rotation\<close>

lemma cols_map_map: "cols (map (map g) m) = cols m"
  by (cases m) (simp_all add: cols_def)

lemma rows_map_map: "rows (map (map g) m) = rows m"
  by (simp add: rows_def)

lemma cv_transpose_map:
  assumes "rect h w m" "0 < h"
  shows "cv_transpose (map (map g) m) = map (map g) (cv_transpose m)"
proof -
  have r: "rows m = h" and c: "cols m = w" using assms by (simp_all add: rect_rows rect_cols)
  have len: "length m = h" using assms(1) by (simp add: rect_def)
  have "\<And>i j. i < w \<Longrightarrow> j < h \<Longrightarrow> map (map g) m ! j ! i = g (m ! j ! i)"
    using rect_nth[OF assms(1)] len by simp
  then show ?thesis
    by (simp add: cv_transpose_def cols_map_map rows_map_map r c)
qed

lemma cv_flip_map: "cv_flip k (map (map g) m) = map (map g) (cv_flip k m)"
  by (simp add: cv_flip_def rev_map)

lemma cv_rotate_grid_map:
  assumes "rect h w m" "0 < h"
  shows "cv_rotate_grid c (map (map g) m) = map (map g) (cv_rotate_grid c m)"
  by (cases c) (simp_all add: cv_transpose_map[OF assms] cv_flip_map)

lemma rotate_candidate_Arr3:
  "rotate_candidate a (Arr3 m) =
     Arr3 (if a = 0 then m else if a = 90 then cv_rotate_grid ROTATE_90_CLOCKWISE m
           else if a = 180 then cv_rotate_grid ROTATE_180 m
           else cv_rotate_grid ROTATE_90_COUNTERCLOCKWISE m)"
  by (simp add: rotate_candidate_def cv_rotate_def del: cv_rotate_grid.simps)

lemma rotate_candidate_Arr2:
  "rotate_candidate a (Arr2 m) =
     Arr2 (if a = 0 then m else if a = 90 then cv_rotate_grid ROTATE_90_CLOCKWISE m
           else if a = 180 then cv_rotate_grid ROTATE_180 m
           else cv_rotate_grid ROTATE_90_COUNTERCLOCKWISE m)"
  by (simp add: rotate_candidate_def cv_rotate_def del: cv_rotate_grid.simps)

lemma rotate_candidate_map:
  assumes "rect h w m" "0 < h"
  shows "rotate_candidate a (Arr3 (map (map g) m)) =
     map_grid id (map (map g)) (rotate_candidate a (Arr3 m))"
  by (simp add: rotate_candidate_Arr3 cv_rotate_grid_map[OF assms] del: cv_rotate_grid.simps)

lemma wf_rotate_clockwise: "wf_image a \<Longrightarrow> wf_image (rotate_clockwise k a)"
  by (induction k) (simp_all add: rotate_clockwise_def wf_quarter_turn)

lemma wf_rotate_candidate:
  assumes "wf_image a" "k \<in> {0, 90, 180, 270}"
  shows "wf_image (rotate_candidate k a)"
  using assms rotate_candidate_clockwise[OF assms(1)] wf_rotate_clockwise[OF assms(1)]
  by auto

lemma shape_last_quarter_turn:
  assumes "wf_image (Arr3 m)"
  shows "channels (clockwise_quarter m) = channels m"
proof -
  let ?h = "rows m" and ?w = "cols m"
  have rc: "rect ?h ?w m" "0 < ?h" "0 < ?w"
    and px: "list_all (list_all (\<lambda>p. length p = channels m)) m"
    using assms by simp_all
  show ?thesis
    using channels_clockwise_quarter[OF rc] pixel_length[OF px rc(1), of "?h - 1" 0] rc by simp
qed

lemma channels_rotate_clockwise:
  assumes "wf_image (Arr3 m)"
  shows "\<exists>m'. rotate_clockwise k (Arr3 m) = Arr3 m' \<and> channels m' = channels m"
proof (induction k)
  case 0
  then show ?case by (simp add: rotate_clockwise_def)
next
  case (Suc k)
  then obtain m' where m': "rotate_clockwise k (Arr3 m) = Arr3 m'" "channels m' = channels m"
    by blast
  have "wf_image (Arr3 m')" using wf_rotate_clockwise[OF assms, of k] m' by simp
  then have "channels (clockwise_quarter m') = channels m'" by (rule shape_last_quarter_turn)
  then show ?case using m' by (simp add: rotate_clockwise_def quarter_turn_def)
qed

lemma channels_rotate_candidate:
  assumes "wf_image (Arr3 m)" "k \<in> {0, 90, 180, 270}"
  shows "\<exists>m'. rotate_candidate k (Arr3 m) = Arr3 m' \<and> channels m' = channels m"
proof -
  have "\<exists>n. rotate_candidate k (Arr3 m) = rotate_clockwise n (Arr3 m)"
    using assms(2) rotate_candidate_clockwise[OF assms(1)]
    by (metis empty_iff funpow_0 insert_iff rotate_clockwise_def)
  then show ?thesis using channels_rotate_clockwise[OF assms(1)] by metis
qed

lemma channels_take3:
  assumes "wf_image (Arr3 m)" "channels m = 4"
  shows "channels (map (map (cvt_pixel COLOR_RGBA2RGB)) m) = 3"
proof -
  obtain r rs where m: "m = r # rs" using assms(1) by (cases m) (auto simp: rows_def)
  then obtain p ps where r: "r = p # ps" using assms(1) by (cases r) (auto simp: cols_def)
  have "length p = 4" using assms m r by (simp add: channels_def)
  then show ?thesis using m r by (simp add: channels_def)
qed

text \<open>What \<open>imread_chinese\<close> does to the pixels of an array it accepts.\<close>

lemma imread_chinese_Arr3:
  assumes "wf_image (Arr3 m)"
  shows "imread_chinese (Some (Arr3 m)) =
     (if channels m = 4
        then Inr (Arr3 (map (map (cvt_pixel COLOR_RGB2BGR \<circ> cvt_pixel COLOR_RGBA2RGB)) m))
      else if channels m = 3 then Inr (Arr3 (map (map (cvt_pixel COLOR_RGB2BGR)) m))
      else Inl CvError)"
  using channels_take3[OF assms]
  by (auto simp: imread_chinese_def simp del: cvt_pixel.simps)

lemma imread_chinese_Arr2:
  "imread_chinese (Some (Arr2 m)) = (if cols m = 4 then Inl CvError else Inr (Arr2 m))"
  by (simp add: imread_chinese_def)

lemma imread_rotated:
  assumes "wf_image img" "a \<in> {0, 90, 180, 270}"
    and "imread_chinese (Some img) = Inr t"
    and "imread_chinese (Some (rotate_candidate a img)) = Inr t'"
  shows "t' = rotate_candidate a t"
proof (cases img)
  case (Arr2 m)
  then have "t = Arr2 m" using assms(3) by (simp add: imread_chinese_Arr2 split: if_splits)
  moreover obtain m' where m': "rotate_candidate a (Arr2 m) = Arr2 m'"
    by (simp add: rotate_candidate_Arr2)
  ultimately show ?thesis
    using assms(4) Arr2 by (simp add: imread_chinese_Arr2 split: if_splits)
next
  case (Arr3 m)
  have wf: "wf_image (Arr3 m)" using assms(1) Arr3 by simp
  have rc: "rect (rows m) (cols m) m" "0 < rows m" using wf by simp_all
  obtain m' where m': "rotate_candidate a (Arr3 m) = Arr3 m'" "channels m' = channels m"
    using channels_rotate_candidate[OF wf assms(2)] by blast
  have wf': "wf_image (Arr3 m')" using wf_rotate_candidate[OF wf assms(2)] m' by simp
  show ?thesis
    using assms(3,4) unfolding Arr3 m'(1)
    unfolding imread_chinese_Arr3[OF wf] imread_chinese_Arr3[OF wf'] m'(2)
    using m'(1) rotate_candidate_map[OF rc, of a]
    by (auto split: if_splits)
qed

lemma shape_rotate_clockwise:
  assumes "wf_image a"
  shows "shape0 (rotate_clockwise 1 a) = shape1 a" "shape1 (rotate_clockwise 1 a) = shape0 a"
    and "shape0 (rotate_clockwise 2 a) = shape0 a" "shape1 (rotate_clockwise 2 a) = shape1 a"
    and "shape0 (rotate_clockwise 3 a) = shape1 a" "shape1 (rotate_clockwise 3 a) = shape0 a"
proof -
  have p: "0 < shape0 a" "0 < shape1 a" using assms by (cases a; simp)+
  show "shape0 (rotate_clockwise 1 a) = shape1 a" "shape1 (rotate_clockwise 1 a) = shape0 a"
    and "shape0 (rotate_clockwise 2 a) = shape0 a" "shape1 (rotate_clockwise 2 a) = shape1 a"
    and "shape0 (rotate_clockwise 3 a) = shape1 a" "shape1 (rotate_clockwise 3 a) = shape0 a"
    unfolding rotate_clockwise_1 rotate_clockwise_2 rotate_clockwise_3
    using p by (simp_all add: shape_quarter_turn)
qed

text \<open>
  C6. For a decoded image, the loop of \<open>find_correct_rotation\<close> generates exactly four
  candidates, for the angles 0, 90, 180, 270 in this order and without duplicates. The
  candidate for 0 is the image itself; those for 90, 180 and 270 are the image turned clockwise
  by one, two and three quarter turns. Height and width are swapped for 90 and 270 and kept
  for 180, and nothing is cropped: turning a candidate on to the full turn gives the image back.
\<close>

theorem rotation_candidates_clockwise:
  assumes "wf_image img"
  shows "rotation_candidates img =
           [(0, img), (90, rotate_clockwise 1 img), (180, rotate_clockwise 2 img),
            (270, rotate_clockwise 3 img)]
     \<and> map fst (rotation_candidates img) = [0, 90, 180, 270]
     \<and> distinct (map fst (rotation_candidates img))
     \<and> shape0 (rotate_candidate 90 img) = shape1 img \<and> shape1 (rotate_candidate 90 img) = shape0 img
     \<and> shape0 (rotate_candidate 180 img) = shape0 img \<and> shape1 (rotate_candidate 180 img) = shape1 img
     \<and> shape0 (rotate_candidate 270 img) = shape1 img \<and> shape1 (rotate_candidate 270 img) = shape0 img
     \<and> rotate_clockwise 3 (rotate_candidate 90 img) = img
     \<and> rotate_clockwise 2 (rotate_candidate 180 img) = img
     \<and> rotate_clockwise 1 (rotate_candidate 270 img) = img"
proof -
  note rc = rotate_candidate_clockwise[OF assms]
  have cands: "rotation_candidates img =
           [(0, img), (90, rotate_clockwise 1 img), (180, rotate_clockwise 2 img),
            (270, rotate_clockwise 3 img)]"
    by (simp add: rotation_candidates_def rc)
  have restore: "rotate_clockwise 3 (rotate_clockwise 1 img) = img"
    "rotate_clockwise 2 (rotate_clockwise 2 img) = img"
    "rotate_clockwise 1 (rotate_clockwise 3 img) = img"
    unfolding rotate_clockwise_1 rotate_clockwise_2 rotate_clockwise_3
    using quarter_turn_four[OF assms] by simp_all
  show ?thesis
    unfolding cands rc using shape_rotate_clockwise[OF assms] restore by simp
qed

theorem rotation_candidates_clockwise_witness:
  "wf_image rgb_pixel_image
   \<and> rotation_candidates rgb_pixel_image =
       [(0, Arr3 [[[10, 20, 30], [40, 50, 60]]]),
        (90, Arr3 [[[10, 20, 30]], [[40, 50, 60]]]),
        (180, Arr3 [[[40, 50, 60], [10, 20, 30]]]),
        (270, Arr3 [[[40, 50, 60]], [[10, 20, 30]]])]
   \<and> rotate_clockwise 1 rgb_pixel_image = Arr3 [[[10, 20, 30]], [[40, 50, 60]]]
   \<and> shape0 (rotate_candidate 90 rgb_pixel_image) = 2
   \<and> shape1 (rotate_candidate 90 rgb_pixel_image) = 1"
proof -
  have wf: "wf_image rgb_pixel_image"
    by (simp add: rgb_pixel_image_def rows_def cols_def rect_def channels_def)
  have c: "rotation_candidates rgb_pixel_image =
       [(0, Arr3 [[[10, 20, 30], [40, 50, 60]]]),
        (90, Arr3 [[[10, 20, 30]], [[40, 50, 60]]]),
        (180, Arr3 [[[40, 50, 60], [10, 20, 30]]]),
        (270, Arr3 [[[40, 50, 60]], [[10, 20, 30]]])]"
    by code_simp
  have s: "shape0 rgb_pixel_image = 1" "shape1 rgb_pixel_image = 2"
    by (simp_all add: rgb_pixel_image_def rows_def cols_def)
  show ?thesis
    using rotation_candidates_clockwise[OF wf] wf c s by simp
qed

text \<open>
  For a decoded image and an angle \<open>a\<close> of 90, 180 or 270, PIL's
  \<open>rotate(360 - a, expand=True)\<close> yields the same raster as the rotation that generates the
  candidate for \<open>a\<close>, which is the clockwise rotation by \<open>a\<close>; decoding that raster the way
  candidates are decoded gives the candidate built from the decoded image.
\<close>

lemma pil_rotation_is_candidate_rotation:
  assumes "wf_image img" and "a \<in> {90, 180, 270}"
  shows "pil_rotate (if a \<noteq> 0 then 360 - a else 0) True img = Some (rotate_candidate a img)
     \<and> rotate_candidate a img = rotate_clockwise (nat (a div 90)) img
     \<and> (\<forall>t t'. imread_chinese (Some img) = Inr t
            \<and> imread_chinese (Some (rotate_candidate a img)) = Inr t'
          \<longrightarrow> t' = rotate_candidate a t)"
proof (intro conjI allI impI)
  note rc = rotate_candidate_clockwise[OF assms(1)]
  note pr = pil_rotate_quarter_turns[OF assms(1)]
  show "pil_rotate (if a \<noteq> 0 then 360 - a else 0) True img = Some (rotate_candidate a img)"
    using assms(2) rc pr by auto
  show "rotate_candidate a img = rotate_clockwise (nat (a div 90)) img"
    using assms(2) rc by auto
next
  fix t t'
  assume h: "imread_chinese (Some img) = Inr t
            \<and> imread_chinese (Some (rotate_candidate a img)) = Inr t'"
  have "a \<in> {0, 90, 180, 270}" using assms(2) by auto
  then show "t' = rotate_candidate a t"
    using imread_rotated[OF assms(1)] h by blast
qed

section \<open>The batch loop\<close>

lemma find_correct_rotation_unreadable:
  "imread_chinese f = Inl e \<Longrightarrow>
     find_correct_rotation sim fsub f ref =
       \<lparr>best_angle = 0, best_similarity = 0, similarity_scores = [], needs_manual_check = False\<rparr>"
  by (simp add: find_correct_rotation_def)

lemma process_file_unreadable:
  assumes "imread_chinese content = Inl e"
  shows "process_file sim fsub output_folder ref (name, content) st = Inl KeyError"
  by (simp add: process_file_def find_correct_rotation_unreadable[OF assms] dict_get_def)

lemma batch_loop_unreadable:
  assumes "imread_chinese content = Inl e"
  shows "batch_loop sim fsub output_folder ref ((name, content) # rest) st = (st, Some KeyError)"
  by (simp add: process_file_unreadable[OF assms])

lemma process_file_failed_count:
  "process_file sim fsub output_folder ref f st = Inr st' \<Longrightarrow> failed_count st' = failed_count st"
  by (cases f) (auto simp: process_file_def Let_def split: sum.splits option.splits if_splits)

lemma batch_loop_failed_count:
  "batch_loop sim fsub output_folder ref fs st = (st', r) \<Longrightarrow> failed_count st' = failed_count st"
proof (induction fs arbitrary: st)
  case Nil
  then show ?case by simp
next
  case (Cons f fs)
  show ?case
  proof (cases "process_file sim fsub output_folder ref f st")
    case (Inl e)
    then show ?thesis using Cons.prems by simp
  next
    case (Inr st1)
    then have "batch_loop sim fsub output_folder ref fs st1 = (st', r)" using Cons.prems by simp
    then have "failed_count st' = failed_count st1" by (rule Cons.IH)
    then show ?thesis using process_file_failed_count[OF Inr] by simp
  qed
qed

lemma pil_rotate_expand:
  assumes "a \<in> {90, 180, 270}"
  shows "\<exists>r. pil_rotate (360 - a) True img = Some r"
  using assms by (auto simp: pil_rotate_def)

lemma show_scores_loaded:
  assumes "imread_chinese f = Inr t"
  shows "show_scores (similarity_scores (find_correct_rotation sim fsub f ref)) [0, 90, 180, 270] = Inr ()"
  unfolding scores_loaded[OF assms] by (simp add: dict_get_def)

lemma length_sorted_items_desc: "length (sorted_items_desc items) = length items"
  by (simp add: sorted_items_desc_def)

lemma imread_chinese_Inr_Some: "imread_chinese f = Inr t \<Longrightarrow> \<exists>img. f = Some img"
  by (cases f) (simp_all add: imread_chinese_def)

lemma process_file_loaded:
  assumes "imread_chinese (Some img) = Inr t"
    and "d = find_correct_rotation sim fsub (Some img) ref"
    and "(if best_angle d = 0 then Some img else pil_rotate (360 - best_angle d) True img) = Some written"
  shows "process_file sim fsub output_folder ref (name, Some img) st =
     Inr (st\<lparr>corrected_count := corrected_count st + (if best_angle d \<noteq> 0 then 1 else 0),
             already_correct_count := already_correct_count st + (if best_angle d = 0 then 1 else 0),
             manual_check_count := manual_check_count st + (if needs_manual_check d then 1 else 0),
             saved := saved st @
               [(if needs_manual_check d then output_folder @ ''/manual_check/'' @ name
                 else output_folder @ ''/'' @ name, written)]\<rparr>)"
proof -
  have len: "length (similarity_scores d) = 4"
    unfolding assms(2) scores_loaded[OF assms(1)] by simp
  have g0: "list_get (sorted_items_desc (similarity_scores d)) 0
              = Inr (sorted_items_desc (similarity_scores d) ! 0)"
    and g1: "list_get (sorted_items_desc (similarity_scores d)) 1
              = Inr (sorted_items_desc (similarity_scores d) ! 1)"
    by (simp_all add: list_get_def length_sorted_items_desc len)
  have sh: "show_scores (similarity_scores d) [0, 90, 180, 270] = Inr ()"
    unfolding assms(2) by (rule show_scores_loaded[OF assms(1)])
  show ?thesis
    using assms(3) sh g0 g1
    unfolding process_file_def assms(2)[symmetric] prod.case Let_def
    by (cases "best_angle d = 0") (simp_all add: path_join_def)
qed

text \<open>
  C7. For a candidate image that loads, the loop body writes exactly one file, under the
  original file name: into the output folder when \<open>needs_manual_check\<close> is false and into
  its \<open>manual_check\<close> subfolder when it is true. For a best angle of 0 the written raster is
  the image itself; otherwise it is the image rotated by PIL, which for a decoded image is the
  chosen rotation candidate.
\<close>

theorem process_file_writes_routed_copy:
  assumes "imread_chinese (Some img) = Inr t"
    and "d = find_correct_rotation sim fsub (Some img) ref"
  shows "\<exists>st' written.
       process_file sim fsub output_folder ref (name, Some img) st = Inr st'
     \<and> saved st' = saved st @
         [(if needs_manual_check d then output_folder @ ''/manual_check/'' @ name
           else output_folder @ ''/'' @ name, written)]
     \<and> (if best_angle d = 0 then Some img else pil_rotate (360 - best_angle d) True img) = Some written
     \<and> (best_angle d = 0 \<longrightarrow> written = img)
     \<and> (wf_image img \<longrightarrow> written = rotate_candidate (best_angle d) img)"
proof -
  have rng: "best_angle d \<in> {0, 90, 180, 270}"
    unfolding assms(2) by (rule best_angle_range)
  obtain written where w:
    "(if best_angle d = 0 then Some img else pil_rotate (360 - best_angle d) True img) = Some written"
    using rng pil_rotate_expand[of "best_angle d" img] by (cases "best_angle d = 0") auto
  have z: "best_angle d = 0 \<longrightarrow> written = img" using w by auto
  have c: "wf_image img \<longrightarrow> written = rotate_candidate (best_angle d) img"
  proof
    assume wf: "wf_image img"
    show "written = rotate_candidate (best_angle d) img"
    proof (cases "best_angle d = 0")
      case True
      then show ?thesis using w by (simp add: rotate_candidate_def)
    next
      case False
      then have "best_angle d \<in> {90, 180, 270}" using rng by auto
      then show ?thesis
        using w False rotate_candidate_clockwise[OF wf] pil_rotate_quarter_turns[OF wf] by auto
    qed
  qed
  define dest where "dest = (if needs_manual_check d then output_folder @ ''/manual_check/'' @ name
           else output_folder @ ''/'' @ name)"
  obtain st' where st': "process_file sim fsub output_folder ref (name, Some img) st = Inr st'"
    and sv: "saved st' = saved st @ [(dest, written)]"
    using process_file_loaded[OF assms w, of output_folder name st] by (simp add: dest_def)
  show ?thesis
    using st' sv w z c unfolding dest_def by blast
qed

theorem process_file_writes_routed_copy_witness:
  "imread_chinese (Some tied_corners) = Inr tied_corners
   \<and> needs_manual_check (find_correct_rotation corner_sim exact_sub (Some tied_corners) rgb_pixel_image)
   \<and> best_angle (find_correct_rotation corner_sim exact_sub (Some tied_corners) rgb_pixel_image) = 0
   \<and> (\<exists>st'. process_file corner_sim exact_sub ''output'' rgb_pixel_image (''a.png'', Some tied_corners)
                initial_state = Inr st'
           \<and> saved st' = [(''output/manual_check/a.png'', tied_corners)])"
proof -
  have ld: "imread_chinese (Some tied_corners) = Inr tied_corners"
    by code_simp
  have ev: "find_correct_rotation corner_sim exact_sub (Some tied_corners) rgb_pixel_image =
    \<lparr>best_angle = 0, best_similarity = 9 / 10,
      similarity_scores = [(0, 9 / 10), (90, 9 / 10), (180, 1 / 2), (270, 2 / 5)],
      needs_manual_check = True\<rparr>"
    by code_simp
  show ?thesis
    using process_file_writes_routed_copy[where sim = corner_sim and fsub = exact_sub and ref = rgb_pixel_image
        and output_folder = "''output''" and name = "''a.png''" and st = initial_state,
        OF ld refl] ld
    unfolding ev by (auto simp: initial_state_def)
qed

text \<open>
  C4. A batch of three files whose second file cannot be decoded: \<open>find_correct_rotation\<close>
  catches the failure and returns an empty score map, and the report of the four scores then
  raises \<open>KeyError\<close>, which nothing catches. The run ends there: the failed count is still 0,
  the third file is never processed, and no summary is reached.
\<close>

theorem batch_aborts_on_unreadable_file:
  "batch_correct_with_template corner_sim exact_sub
     [(''a.png'', Some tied_corners), (''b.png'', None), (''c.png'', Some boundary_corners)]
     ''output'' (Some rgb_pixel_image)
   = Aborted KeyError
       \<lparr>corrected_count = 0, already_correct_count = 1, failed_count = 0,
        manual_check_count = 1, saved = [(''output/manual_check/a.png'', tied_corners)]\<rparr>"
proof -
  have ref: "imread_chinese (Some rgb_pixel_image) = Inr (Arr3 [[[30, 20, 10], [60, 50, 40]]])"
    by code_simp
  have ld: "imread_chinese (Some tied_corners) = Inr tied_corners"
    by code_simp
  have ev: "find_correct_rotation corner_sim exact_sub (Some tied_corners) (Arr3 [[[30, 20, 10], [60, 50, 40]]]) =
    \<lparr>best_angle = 0, best_similarity = 9 / 10,
      similarity_scores = [(0, 9 / 10), (90, 9 / 10), (180, 1 / 2), (270, 2 / 5)],
      needs_manual_check = True\<rparr>"
    by code_simp
  have w: "(if best_angle (find_correct_rotation corner_sim exact_sub (Some tied_corners)
                (Arr3 [[[30, 20, 10], [60, 50, 40]]])) = 0 then Some tied_corners
            else pil_rotate (360 - best_angle (find_correct_rotation corner_sim exact_sub (Some tied_corners)
                (Arr3 [[[30, 20, 10], [60, 50, 40]]]))) True tied_corners) = Some tied_corners"
    unfolding ev by simp
  have first: "process_file corner_sim exact_sub ''output'' (Arr3 [[[30, 20, 10], [60, 50, 40]]])
        (''a.png'', Some tied_corners) initial_state =
      Inr \<lparr>corrected_count = 0, already_correct_count = 1, failed_count = 0,
        manual_check_count = 1, saved = [(''output/manual_check/a.png'', tied_corners)]\<rparr>"
    using process_file_loaded[OF ld refl w, of "''output''" "''a.png''" initial_state]
    unfolding ev by (simp add: initial_state_def)
  have bad: "imread_chinese None = Inl DecodeError"
    by (simp add: imread_chinese_def)
  show ?thesis
    unfolding batch_correct_with_template_def ref
    by (simp add: first process_file_unreadable[OF bad])
qed

text \<open>
  C8 (as amended). When the image cannot be loaded, \<open>find_correct_rotation\<close> returns angle 0,
  best score 0, an empty score map and \<open>needs_manual_check = False\<close>. No image that loads
  yields this result, because its map has an entry for each of the four angles: at the call
  site the empty map tells a load failure apart from every decision.
\<close>

theorem find_correct_rotation_load_failure:
  assumes "imread_chinese f = Inl e"
  shows "find_correct_rotation sim fsub f ref =
       \<lparr>best_angle = 0, best_similarity = 0, similarity_scores = [], needs_manual_check = False\<rparr>
     \<and> (\<forall>g t. imread_chinese g = Inr t \<longrightarrow>
           map fst (similarity_scores (find_correct_rotation sim fsub g ref)) = [0, 90, 180, 270]
         \<and> find_correct_rotation sim fsub g ref \<noteq> find_correct_rotation sim fsub f ref)"
proof (intro conjI allI impI)
  show fail: "find_correct_rotation sim fsub f ref =
       \<lparr>best_angle = 0, best_similarity = 0, similarity_scores = [], needs_manual_check = False\<rparr>"
    by (rule find_correct_rotation_unreadable[OF assms])
  fix g t assume g: "imread_chinese g = Inr t"
  show keys: "map fst (similarity_scores (find_correct_rotation sim fsub g ref)) = [0, 90, 180, 270]"
    using g by (simp add: scores_loaded)
  show "find_correct_rotation sim fsub g ref \<noteq> find_correct_rotation sim fsub f ref"
  proof
    assume "find_correct_rotation sim fsub g ref = find_correct_rotation sim fsub f ref"
    then have "similarity_scores (find_correct_rotation sim fsub g ref) = []"
      using fail by simp
    then show False using keys by simp
  qed
qed

theorem find_correct_rotation_load_failure_witness:
  "imread_chinese None = Inl DecodeError
   \<and> find_correct_rotation corner_sim exact_sub None rgb_pixel_image =
       \<lparr>best_angle = 0, best_similarity = 0, similarity_scores = [], needs_manual_check = False\<rparr>
   \<and> imread_chinese (Some tied_corners) = Inr tied_corners
   \<and> map fst (similarity_scores
        (find_correct_rotation corner_sim exact_sub (Some tied_corners) rgb_pixel_image))
       = [0, 90, 180, 270]
   \<and> find_correct_rotation corner_sim exact_sub (Some tied_corners) rgb_pixel_image
       \<noteq> find_correct_rotation corner_sim exact_sub None rgb_pixel_image"
proof -
  have bad: "imread_chinese None = Inl DecodeError"
    by (simp add: imread_chinese_def)
  have ld: "imread_chinese (Some tied_corners) = Inr tied_corners"
    by code_simp
  show ?thesis
    using find_correct_rotation_load_failure[OF bad, of corner_sim exact_sub rgb_pixel_image] bad ld
    by blast
qed

theorem unreadable_file_not_routed_counterexample:
  "imread_chinese None = Inl DecodeError
   \<and> batch_correct_with_template corner_sim exact_sub [(''b.png'', None)] ''output''
        (Some rgb_pixel_image)
       = Aborted KeyError initial_state
   \<and> saved initial_state = []
   \<and> best_angle (find_correct_rotation corner_sim exact_sub (Some boundary_corners) rgb_pixel_image) = 0
   \<and> \<not> needs_manual_check
         (find_correct_rotation corner_sim exact_sub (Some boundary_corners) rgb_pixel_image)
   \<and> find_correct_rotation corner_sim exact_sub None rgb_pixel_image
       \<noteq> find_correct_rotation corner_sim exact_sub (Some boundary_corners) rgb_pixel_image"
proof -
  have ref: "imread_chinese (Some rgb_pixel_image) = Inr (Arr3 [[[30, 20, 10], [60, 50, 40]]])"
    by code_simp
  have bad: "imread_chinese None = Inl DecodeError"
    by (simp add: imread_chinese_def)
  have ldb: "imread_chinese (Some boundary_corners) = Inr boundary_corners"
    by code_simp
  have ev: "find_correct_rotation corner_sim exact_sub (Some boundary_corners) rgb_pixel_image =
    \<lparr>best_angle = 0, best_similarity = 103 / 200,
      similarity_scores = [(0, 103 / 200), (90, 1 / 2), (180, 1 / 5), (270, 1 / 10)],
      needs_manual_check = False\<rparr>"
    by code_simp
  have batch: "batch_correct_with_template corner_sim exact_sub [(''b.png'', None)] ''output''
        (Some rgb_pixel_image) = Aborted KeyError initial_state"
    unfolding batch_correct_with_template_def ref
    by (simp add: process_file_unreadable[OF bad])
  show ?thesis
    unfolding ev find_correct_rotation_unreadable[OF bad]
    using bad batch by (simp add: initial_state_def)
qed

text \<open>
  C5. For a decoded image that loads and whose best angle \<open>a\<close> is 90, 180 or 270, the loop
  body saves the raster \<open>rotate_candidate a img\<close>: PIL's \<open>rotate(360 - a, expand=True)\<close> of
  the opened image is the rotation that generated the candidate for \<open>a\<close> during scoring, the
  clockwise rotation by \<open>a\<close>. The candidate whose score is recorded for \<open>a\<close> is that same
  rotation of the decoded array, and decoding the saved raster the way candidates are decoded
  gives exactly that candidate.
\<close>

theorem saved_file_is_chosen_candidate:
  assumes "wf_image img" and "imread_chinese (Some img) = Inr t"
    and "d = find_correct_rotation sim fsub (Some img) ref"
    and "best_angle d \<in> {90, 180, 270}"
  shows "\<exists>st'. process_file sim fsub output_folder ref (name, Some img) st = Inr st'
       \<and> saved st' = saved st @
           [(if needs_manual_check d then output_folder @ ''/manual_check/'' @ name
             else output_folder @ ''/'' @ name, rotate_candidate (best_angle d) img)]
       \<and> pil_rotate (360 - best_angle d) True img = Some (rotate_candidate (best_angle d) img)
       \<and> rotate_candidate (best_angle d) img = rotate_clockwise (nat (best_angle d div 90)) img
       \<and> (best_angle d, rotate_candidate (best_angle d) t) \<in> set (rotation_candidates t)
       \<and> map_of (similarity_scores d) (best_angle d)
           = Some (sim ref (rotate_candidate (best_angle d) t))
       \<and> (\<forall>t'. imread_chinese (Some (rotate_candidate (best_angle d) img)) = Inr t'
             \<longrightarrow> t' = rotate_candidate (best_angle d) t)"
proof -
  let ?a = "best_angle d"
  have nz: "?a \<noteq> 0" using assms(4) by auto
  have rot: "pil_rotate (360 - ?a) True img = Some (rotate_candidate ?a img)"
    and cw: "rotate_candidate ?a img = rotate_clockwise (nat (?a div 90)) img"
    and dec: "\<forall>t'. imread_chinese (Some (rotate_candidate ?a img)) = Inr t'
             \<longrightarrow> t' = rotate_candidate ?a t"
    using pil_rotation_is_candidate_rotation[OF assms(1,4)] nz assms(2) by auto
  have w: "(if ?a = 0 then Some img else pil_rotate (360 - ?a) True img)
             = Some (rotate_candidate ?a img)"
    using nz rot by simp
  have cand: "(?a, rotate_candidate ?a t) \<in> set (rotation_candidates t)"
    using assms(4) by (auto simp: rotation_candidates_def)
  have score: "map_of (similarity_scores d) ?a = Some (sim ref (rotate_candidate ?a t))"
    using assms(4) unfolding assms(3) scores_loaded[OF assms(2)] by auto
  obtain st' where st': "process_file sim fsub output_folder ref (name, Some img) st = Inr st'"
    and sv: "saved st' = saved st @
           [(if needs_manual_check d then output_folder @ ''/manual_check/'' @ name
             else output_folder @ ''/'' @ name, rotate_candidate ?a img)]"
    using process_file_loaded[OF assms(2,3) w, of output_folder name st] by simp
  show ?thesis
    using st' sv rot cw cand score dec by blast
qed

theorem saved_file_is_chosen_candidate_witness:
  "wf_image best_at_90
   \<and> imread_chinese (Some best_at_90) = Inr best_at_90
   \<and> best_angle (find_correct_rotation corner_sim exact_sub (Some best_at_90) rgb_pixel_image) = 90
   \<and> rotate_candidate 90 best_at_90 = Arr2 [[180, 20], [100, 40]]
   \<and> (\<exists>st'. process_file corner_sim exact_sub ''output'' rgb_pixel_image
                (''a.png'', Some best_at_90) initial_state = Inr st'
           \<and> saved st' = [(''output/a.png'', Arr2 [[180, 20], [100, 40]])])"
proof -
  have wf: "wf_image best_at_90"
    by (simp add: best_at_90_def rows_def cols_def rect_def)
  have ld: "imread_chinese (Some best_at_90) = Inr best_at_90"
    by code_simp
  have ev: "find_correct_rotation corner_sim exact_sub (Some best_at_90) rgb_pixel_image =
    \<lparr>best_angle = 90, best_similarity = 9 / 10,
      similarity_scores = [(0, 1 / 10), (90, 9 / 10), (180, 1 / 2), (270, 1 / 5)],
      needs_manual_check = False\<rparr>"
    by code_simp
  have a: "best_angle (find_correct_rotation corner_sim exact_sub (Some best_at_90) rgb_pixel_image)
             \<in> {90, 180, 270}"
    unfolding ev by simp
  have rc: "rotate_candidate 90 best_at_90 = Arr2 [[180, 20], [100, 40]]"
    by code_simp
  show ?thesis
    using saved_file_is_chosen_candidate[where sim = corner_sim and fsub = exact_sub
        and ref = rgb_pixel_image and output_folder = "''output''" and name = "''a.png''"
        and st = initial_state, OF wf ld refl a] wf ld rc
    unfolding ev by (auto simp: initial_state_def)
qed

section \<open>Slices\<close>

lemma take_drop_nth:
  assumes "l \<le> r" "r \<le> length xs"
  shows "take (r - l) (drop l xs) = map (\<lambda>x. xs ! x) [l..<r]"
  using assms by (intro nth_equalityI) auto

lemma crop_columns:
  assumes "rect h w m" "l \<le> r" "r \<le> w"
  shows "pil_crop_grid (int l, 0, int r, int h) m = column_slice l r m"
proof -
  have len: "length m = h" and row: "\<And>row. row \<in> set m \<Longrightarrow> length row = w"
    using assms(1) by (auto simp: rect_def list_all_iff)
  have "take (r - l) (drop l row) = map (\<lambda>x. row ! x) [l..<r]" if "row \<in> set m" for row
  proof (rule take_drop_nth[OF assms(2)])
    show "r \<le> length row" using row[OF that] assms(3) by simp
  qed
  then show ?thesis
    using assms(2) by (simp add: pil_crop_grid_def column_slice_def len nat_diff_distrib')
qed

lemma crop_rows:
  assumes "rect h w m" "t \<le> b" "b \<le> h"
  shows "pil_crop_grid (0, int t, int w, int b) m = row_slice t b m"
proof -
  have len: "length m = h" and row: "\<And>row. row \<in> set m \<Longrightarrow> length row = w"
    using assms(1) by (auto simp: rect_def list_all_iff)
  have "b \<le> length m" using assms(3) len by simp
  then have "take (b - t) (drop t m) = map (\<lambda>y. m ! y) [t..<b]"
    by (rule take_drop_nth[OF assms(2)])
  moreover have "\<And>row. row \<in> set (take (b - t) (drop t m)) \<Longrightarrow> take w row = row"
    using row by (auto dest!: in_set_takeD in_set_dropD)
  ultimately show ?thesis
    using assms(2) by (simp add: pil_crop_grid_def row_slice_def nat_diff_distrib' cong: map_cong)
qed

lemma thirds_bounds:
  fixes w :: nat
  shows "w div 3 \<le> 2 * (w div 3)" "2 * (w div 3) \<le> w" "w div 3 \<le> w"
  by simp_all

lemma thirds_partition:
  fixes w :: nat
  shows "{0..<w div 3} \<union> {w div 3..<2 * (w div 3)} \<union> {2 * (w div 3)..<w} = {0..<w}"
    and "{0..<w div 3} \<inter> {w div 3..<2 * (w div 3)} = {}"
    and "{0..<w div 3} \<inter> {2 * (w div 3)..<w} = {}"
    and "{w div 3..<2 * (w div 3)} \<inter> {2 * (w div 3)..<w} = {}"
  by auto

lemma crop_columns_shape:
  "rect (rows m) (cols m) m \<Longrightarrow> l \<le> r \<Longrightarrow> r \<le> cols m
   \<Longrightarrow> pil_crop_grid (int l, 0, int r, int (rows m)) m = column_slice l r m"
  by (rule crop_columns)

lemma crop_rows_shape:
  "rect (rows m) (cols m) m \<Longrightarrow> t \<le> b \<Longrightarrow> b \<le> rows m
   \<Longrightarrow> pil_crop_grid (0, int t, int (cols m), int b) m = row_slice t b m"
  by (rule crop_rows)

lemma crop_columns_array:
  assumes "wf_image a" "l \<le> r" "r \<le> shape1 a"
  shows "pil_crop (int l, 0, int r, int (shape0 a)) a = slice_columns l r a"
  using assms
  by (cases a) (simp_all add: pil_crop_def slice_columns_def crop_columns_shape)

lemma crop_rows_array:
  assumes "wf_image a" "t \<le> b" "b \<le> shape0 a"
  shows "pil_crop (0, int t, int (shape1 a), int b) a = slice_rows t b a"
  using assms
  by (cases a) (simp_all add: pil_crop_def slice_rows_def crop_rows_shape)

lemma shape_slice_columns:
  assumes "wf_image a" "l < r"
  shows "shape0 (slice_columns l r a) \<noteq> 0" "shape1 (slice_columns l r a) \<noteq> 0"
proof -
  have c: "cols (column_slice l r m) = r - l" if "0 < rows m" for m :: "'a grid"
    using that by (cases m) (simp_all add: cols_def column_slice_def rows_def)
  have r: "rows (column_slice l r m) = rows m" for m :: "'a grid"
    by (simp add: rows_def column_slice_def)
  show "shape0 (slice_columns l r a) \<noteq> 0" "shape1 (slice_columns l r a) \<noteq> 0"
    using assms by (cases a; simp add: slice_columns_def c r)+
qed

lemma shape_slice_rows:
  assumes "wf_image a" "t < b" "b \<le> shape0 a"
  shows "shape0 (slice_rows t b a) \<noteq> 0" "shape1 (slice_rows t b a) \<noteq> 0"
proof -
  have r: "rows (row_slice t b m) = b - t" for m :: "'a grid"
    by (simp add: rows_def row_slice_def)
  have c: "cols (row_slice t b m) = cols m"
    if "rect (rows m) (cols m) m" "b \<le> rows m" for m :: "'a grid"
  proof -
    have "[t..<b] = t # [Suc t..<b]" using assms(2) by (simp add: upt_conv_Cons)
    then have "cols (row_slice t b m) = length (m ! t)"
      by (simp add: cols_def row_slice_def)
    then show ?thesis using rect_nth[OF that(1), of t] assms(2) that(2) by simp
  qed
  show "shape0 (slice_rows t b a) \<noteq> 0" "shape1 (slice_rows t b a) \<noteq> 0"
    using assms by (cases a; simp add: slice_rows_def c r)+
qed

text \<open>
  C9 (as amended). For a decoded image of width \<open>w\<close> and height \<open>h\<close> and a part index of 1, 2
  or 3, with \<open>w\<close> at least 3 or the part index 3, \<open>extract_part_from_image\<close> in the horizontal
  direction saves, under the original name, the full-height slice of the columns from
  \<open>i * (w div 3)\<close> up to but excluding \<open>(i + 1) * (w div 3)\<close> for \<open>i = part_index - 1 < 2\<close>,
  and from \<open>2 * (w div 3)\<close> up to \<open>w\<close> for part 3. The three column ranges are pairwise
  disjoint and cover all columns. Any other direction does the same along the height, for
  \<open>h\<close> at least 3 or the part index 3.
\<close>

theorem extract_part_slices_thirds:
  assumes "wf_image img" and "part_index \<in> {1, 2, 3}"
    and "i = nat (part_index - 1)" and "w = shape1 img" and "h = shape0 img"
  shows "(3 \<le> w \<or> part_index = 3 \<longrightarrow>
          extract_part_from_image (name, Some img) output_folder part_index ''horizontal'' =
           Inr (output_folder @ ''/'' @ name,
                slice_columns (i * (w div 3)) (if i < 2 then (i + 1) * (w div 3) else w) img))
     \<and> (direction \<noteq> ''horizontal'' \<and> (3 \<le> h \<or> part_index = 3) \<longrightarrow>
          extract_part_from_image (name, Some img) output_folder part_index direction =
           Inr (output_folder @ ''/'' @ name,
                slice_rows (i * (h div 3)) (if i < 2 then (i + 1) * (h div 3) else h) img))
     \<and> {0..<w div 3} \<union> {w div 3..<2 * (w div 3)} \<union> {2 * (w div 3)..<w} = {0..<w}
     \<and> {0..<w div 3} \<inter> {w div 3..<2 * (w div 3)} = {}
     \<and> {0..<w div 3} \<inter> {2 * (w div 3)..<w} = {}
     \<and> {w div 3..<2 * (w div 3)} \<inter> {2 * (w div 3)..<w} = {}
     \<and> {0..<h div 3} \<union> {h div 3..<2 * (h div 3)} \<union> {2 * (h div 3)..<h} = {0..<h}
     \<and> {0..<h div 3} \<inter> {h div 3..<2 * (h div 3)} = {}
     \<and> {0..<h div 3} \<inter> {2 * (h div 3)..<h} = {}
     \<and> {h div 3..<2 * (h div 3)} \<inter> {2 * (h div 3)..<h} = {}"
proof -
  have cases: "part_index = 1 \<or> part_index = 2 \<or> part_index = 3" using assms(2) by auto
  have wd: "int w div 3 = int (w div 3)" and hd: "int h div 3 = int (h div 3)"
    by (simp_all add: zdiv_int)
  have pos: "0 < w" "0 < h" using assms(1,4,5) by (cases img; simp)+
  have horizontal:
    "extract_part_from_image (name, Some img) output_folder part_index ''horizontal'' =
           Inr (output_folder @ ''/'' @ name,
                slice_columns (i * (w div 3)) (if i < 2 then (i + 1) * (w div 3) else w) img)"
    if ne: "3 \<le> w \<or> part_index = 3"
  proof -
    have c1: "pil_crop (0, 0, int (w div 3), int h) img = slice_columns 0 (w div 3) img"
      using crop_columns_array[OF assms(1), of 0 "w div 3"] assms(4,5) by simp
    have c2: "pil_crop (int (w div 3), 0, 2 * int (w div 3), int h) img
                = slice_columns (w div 3) (2 * (w div 3)) img"
      using crop_columns_array[OF assms(1), of "w div 3" "2 * (w div 3)"] assms(4,5) by simp
    have c3: "pil_crop (2 * int (w div 3), 0, int w, int h) img = slice_columns (2 * (w div 3)) w img"
      using crop_columns_array[OF assms(1), of "2 * (w div 3)" w] assms(4,5) by simp
    have n1: "shape0 (slice_columns 0 (w div 3) img) \<noteq> 0 \<and> shape1 (slice_columns 0 (w div 3) img) \<noteq> 0"
      if "3 \<le> w"
      using shape_slice_columns[OF assms(1), of 0 "w div 3"] that by simp
    have n2: "shape0 (slice_columns (w div 3) (2 * (w div 3)) img) \<noteq> 0
            \<and> shape1 (slice_columns (w div 3) (2 * (w div 3)) img) \<noteq> 0"
      if "3 \<le> w"
      using shape_slice_columns[OF assms(1), of "w div 3" "2 * (w div 3)"] that by simp
    have n3: "shape0 (slice_columns (2 * (w div 3)) w img) \<noteq> 0
            \<and> shape1 (slice_columns (2 * (w div 3)) w img) \<noteq> 0"
      using shape_slice_columns[OF assms(1), of "2 * (w div 3)" w] pos by simp
    show ?thesis
      using cases
    proof (elim disjE)
      assume p: "part_index = 1"
      then have "3 \<le> w" using ne by simp
      then show ?thesis
        using p assms(3) n1
        by (simp add: extract_part_from_image_def Let_def path_join_def assms(4)[symmetric]
            assms(5)[symmetric] wd c1 image_save_def)
    next
      assume p: "part_index = 2"
      then have "3 \<le> w" using ne by simp
      then show ?thesis
        using p assms(3) n2
        by (simp add: extract_part_from_image_def Let_def path_join_def assms(4)[symmetric]
            assms(5)[symmetric] wd c2 image_save_def mult_2[symmetric])
    next
      assume p: "part_index = 3"
      then show ?thesis
        using assms(3) n3
        by (simp add: extract_part_from_image_def Let_def path_join_def assms(4)[symmetric]
            assms(5)[symmetric] wd c3 image_save_def)
    qed
  qed
  have vertical:
    "extract_part_from_image (name, Some img) output_folder part_index direction =
           Inr (output_folder @ ''/'' @ name,
                slice_rows (i * (h div 3)) (if i < 2 then (i + 1) * (h div 3) else h) img)"
    if dir: "direction \<noteq> ''horizontal''" and ne: "3 \<le> h \<or> part_index = 3"
  proof -
    have c1: "pil_crop (0, 0, int w, int (h div 3)) img = slice_rows 0 (h div 3) img"
      using crop_rows_array[OF assms(1), of 0 "h div 3"] assms(4,5) by simp
    have c2: "pil_crop (0, int (h div 3), int w, 2 * int (h div 3)) img
                = slice_rows (h div 3) (2 * (h div 3)) img"
      using crop_rows_array[OF assms(1), of "h div 3" "2 * (h div 3)"] assms(4,5) by simp
    have c3: "pil_crop (0, 2 * int (h div 3), int w, int h) img = slice_rows (2 * (h div 3)) h img"
      using crop_rows_array[OF assms(1), of "2 * (h div 3)" h] assms(4,5) by simp
    have n1: "shape0 (slice_rows 0 (h div 3) img) \<noteq> 0 \<and> shape1 (slice_rows 0 (h div 3) img) \<noteq> 0"
      if "3 \<le> h"
      using shape_slice_rows[OF assms(1), of 0 "h div 3"] that assms(5) by simp
    have n2: "shape0 (slice_rows (h div 3) (2 * (h div 3)) img) \<noteq> 0
            \<and> shape1 (slice_rows (h div 3) (2 * (h div 3)) img) \<noteq> 0"
      if "3 \<le> h"
      using shape_slice_rows[OF assms(1), of "h div 3" "2 * (h div 3)"] that assms(5) by simp
    have n3: "shape0 (slice_rows (2 * (h div 3)) h img) \<noteq> 0
            \<and> shape1 (slice_rows (2 * (h div 3)) h img) \<noteq> 0"
      using shape_slice_rows[OF assms(1), of "2 * (h div 3)" h] pos assms(5) by simp
    show ?thesis
      using cases
    proof (elim disjE)
      assume p: "part_index = 1"
      then have "3 \<le> h" using ne by simp
      then show ?thesis
        using p assms(3) n1 dir
        by (simp add: extract_part_from_image_def Let_def path_join_def assms(4)[symmetric]
            assms(5)[symmetric] hd c1 image_save_def)
    next
      assume p: "part_index = 2"
      then have "3 \<le> h" using ne by simp
      then show ?thesis
        using p assms(3) n2 dir
        by (simp add: extract_part_from_image_def Let_def path_join_def assms(4)[symmetric]
            assms(5)[symmetric] hd c2 image_save_def mult_2[symmetric])
    next
      assume p: "part_index = 3"
      then show ?thesis
        using assms(3) n3 dir
        by (simp add: extract_part_from_image_def Let_def path_join_def assms(4)[symmetric]
            assms(5)[symmetric] hd c3 image_save_def)
    qed
  qed
  show ?thesis
    using horizontal vertical thirds_partition[of w] thirds_partition[of h] by blast
qed

theorem extract_part_slices_thirds_witness:
  "wf_image seven_wide \<and> (3::int) \<in> {1, 2, 3} \<and> 3 \<le> shape1 seven_wide
   \<and> extract_part_from_image (''a.png'', Some seven_wide) ''out'' 3 ''horizontal''
       = Inr (''out/a.png'', Arr2 [[5, 6, 7], [12, 13, 14]])
   \<and> slice_columns 4 7 seven_wide = Arr2 [[5, 6, 7], [12, 13, 14]]
   \<and> extract_part_from_image (''a.png'', Some seven_wide) ''out'' 3 ''vertical''
       = Inr (''out/a.png'', seven_wide)"
proof -
  have wf: "wf_image seven_wide"
    by (simp add: seven_wide_def rows_def cols_def rect_def)
  have p: "(3::int) \<in> {1, 2, 3}" by simp
  have s: "shape1 seven_wide = 7" "shape0 seven_wide = 2"
    by (simp_all add: seven_wide_def rows_def cols_def)
  have sl: "slice_columns 4 7 seven_wide = Arr2 [[5, 6, 7], [12, 13, 14]]"
    by code_simp
  have sr: "slice_rows 0 2 seven_wide = seven_wide"
    by code_simp
  have v: "''vertical'' \<noteq> ''horizontal''" by simp
  show ?thesis
    using extract_part_slices_thirds[OF wf p refl refl refl, of "''a.png''" "''out''" "''vertical''"]
      wf sl sr v
    by (simp add: s)
qed

theorem extract_part_empty_slice_counterexample:
  "wf_image two_wide \<and> shape1 two_wide = 2
   \<and> extract_part_from_image (''a.png'', Some two_wide) ''out'' 1 ''horizontal'' = Inl SaveError
   \<and> extract_part_from_image (''a.png'', Some two_wide) ''out'' 2 ''vertical'' = Inl SaveError"
  by (simp add: two_wide_def extract_part_from_image_def image_save_def pil_crop_def
      pil_crop_grid_def rows_def cols_def rect_def Let_def)

section \<open>Cropping white edges\<close>

lemma np_where_lt_empty:
  assumes "list_all (list_all (\<lambda>g. threshold \<le> g)) gray"
  shows "np_where_lt gray threshold = []"
proof -
  have "filter (\<lambda>j. gray ! i ! j < threshold) [0..<length (gray ! i)] = []" if "i < length gray" for i
  proof -
    have "list_all (\<lambda>g. threshold \<le> g) (gray ! i)"
      using assms that by (simp add: list_all_length)
    then have "\<And>j. j < length (gray ! i) \<Longrightarrow> \<not> gray ! i ! j < threshold"
      by (simp add: list_all_length not_less)
    then show ?thesis by (simp add: filter_empty_conv)
  qed
  then show ?thesis by (simp add: np_where_lt_def)
qed

lemma gray_after_drop_alpha:
  "gray_of (Arr3 (map (map (take 3)) m)) = map (map (\<lambda>p. np_mean (take 3 p))) m"
  by simp

text \<open>Away from two-dimensional arrays of width 4, an image without a pixel below the
  threshold is returned as it is.\<close>

lemma crop_white_edges_all_white:
  assumes "\<not> (ndim img = 2 \<and> shape1 img = 4)"
    and "list_all (list_all (\<lambda>g. threshold \<le> g)) (intensity img)"
  shows "crop_white_edges img threshold padding = Inr img"
proof (cases img)
  case (Arr2 m)
  then have "np_where_lt (gray_of img) threshold = []"
    using assms(2) by (intro np_where_lt_empty) (simp add: intensity_def)
  then show ?thesis
    using Arr2 assms(1) by (simp add: crop_white_edges_def)
next
  case (Arr3 m)
  show ?thesis
  proof (cases "channels m = 4")
    case True
    have "np_where_lt (gray_of (Arr3 (map (map (take 3)) m))) threshold = []"
      using assms(2) Arr3 True by (intro np_where_lt_empty) (simp add: intensity_def comp_def)
    then show ?thesis
      using Arr3 True by (simp add: crop_white_edges_def del: gray_of.simps)
  next
    case False
    have "np_where_lt (gray_of img) threshold = []"
      using assms(2) Arr3 False by (intro np_where_lt_empty) (simp add: intensity_def comp_def)
    then show ?thesis
      using Arr3 False by (simp add: crop_white_edges_def del: gray_of.simps)
  qed
qed

text \<open>
  C10. A single-channel image of width 4 whose pixels are all at least the white threshold:
  the test \<open>shape[-1] == 4\<close> meant for RGBA takes the width for a channel count, and the
  slicing with three indices raises \<open>IndexError\<close> instead of returning the image.
\<close>

theorem crop_white_edges_gray_width_4_raises:
  "wf_image white_gray_4wide
   \<and> list_all (list_all (\<lambda>g. 250 \<le> g)) (intensity white_gray_4wide)
   \<and> crop_white_edges white_gray_4wide 250 10 = Inl IndexError"
  by (simp add: white_gray_4wide_def intensity_def crop_white_edges_def rows_def cols_def rect_def)

lemma crop_white_edges_white_rgba:
  "crop_white_edges white_rgba 250 10 = Inr white_rgba"
proof (rule crop_white_edges_all_white)
  show "\<not> (ndim white_rgba = 2 \<and> shape1 white_rgba = 4)"
    by (simp add: white_rgba_def)
  show "list_all (list_all ((\<le>) 250)) (intensity white_rgba)"
    by (simp add: white_rgba_def intensity_def channels_def np_mean_def)
qed

end
